theory Spec2Isabelle
  imports Complex_Main "HOL-Library.Word"
begin

unbundle bit_operations_syntax

section \<open>Go values and the collaborators of the provider\<close>

text \<open>
  The provider handles JSON through Go's dynamic values (\<^verbatim>\<open>interface{}\<close>). A value carries
  its dynamic type, and \<^verbatim>\<open>==\<close> on two interface values holds only when the dynamic types
  are identical and the values are equal. The constructors below are the dynamic types that
  occur in the repository: \<^verbatim>\<open>nil\<close>, \<^verbatim>\<open>bool\<close>, \<^verbatim>\<open>float64\<close> (every number decoded by
  \<^verbatim>\<open>encoding/json\<close>), \<^verbatim>\<open>int\<close> (the untyped constant \<^verbatim>\<open>0\<close> stored in an interface),
  \<^verbatim>\<open>string\<close>, \<^verbatim>\<open>[]interface{}\<close> and \<^verbatim>\<open>map[string]interface{}\<close>. A map is kept as an
  association list with pairwise distinct keys; a finite \<^verbatim>\<open>float64\<close> is the real number it
  denotes.
\<close>

datatype gval =
    GNil
  | GBool bool
  | GFloat64 real
  | GInt int
  | GString string
  | GSlice "gval list"
  | GMap "(string \<times> gval) list"

datatype error =
    SyntaxError
  | UnmarshalTypeError
  | OutsideFragment
  | NilMapPanic
  | RemoteFailure string

text \<open>
  The package \<^verbatim>\<open>encoding/json\<close> is a collaborator: \<open>Unmarshal\<close> decodes a text into a
  dynamic value (\<^verbatim>\<open>json.Unmarshal([]byte(s), &data)\<close> with \<^verbatim>\<open>data interface{}\<close>), \<open>Marshal\<close>
  encodes a value. Both may fail.
\<close>

record json_pkg =
  Unmarshal :: "string \<Rightarrow> error + gval"
  Marshal :: "gval \<Rightarrow> error + string"

section \<open>The default-field policy and the canonicalizer (alert.go, model/alert.go)\<close>

text \<open>
  \<^verbatim>\<open>isDefaultField(key string, value interface{}) bool\<close>. The comparisons \<^verbatim>\<open>value == false\<close>,
  \<^verbatim>\<open>value == nil\<close>, \<^verbatim>\<open>value == 0\<close>, \<^verbatim>\<open>value == true\<close> and \<^verbatim>\<open>value == ""\<close> compare an
  interface value with a constant, which takes its default type (\<^verbatim>\<open>bool\<close>, \<^verbatim>\<open>int\<close>,
  \<^verbatim>\<open>string\<close>): they hold exactly for the value of that dynamic type.
\<close>

definition isDefaultField :: "string \<Rightarrow> gval \<Rightarrow> bool" where
  "isDefaultField key v =
     (if key = ''groupBy'' then (case v of GSlice elems \<Rightarrow> length elems = 0 | _ \<Rightarrow> False)
      else if key = ''IsAnomaly'' then v = GBool False
      else if key = ''QueriesUsedInFormula'' then v = GNil
      else if key = ''absentFor'' then v = GInt 0
      else if key = ''alertOnAbsent'' then v = GBool False
      else if key = ''hidden'' then v = GBool True
      else if key = ''reduceTo'' \<or> key = ''spaceAggregation'' \<or> key = ''timeAggregation''
        then v = GString ''''
      else False)"

text \<open>
  \<^verbatim>\<open>removeDefaultFields(data interface{}) interface{}\<close>: a map loses the pairs the policy
  matches and keeps the others with their values cleaned, a slice is cleaned element by
  element, any other value is returned as it is. \<open>removeDefaultFields_map\<close> and
  \<open>removeDefaultFields_slice\<close> are the two \<^verbatim>\<open>range\<close> loops.
\<close>

fun removeDefaultFields :: "gval \<Rightarrow> gval"
  and removeDefaultFields_map :: "(string \<times> gval) list \<Rightarrow> (string \<times> gval) list"
  and removeDefaultFields_slice :: "gval list \<Rightarrow> gval list" where
  "removeDefaultFields (GMap kvs) = GMap (removeDefaultFields_map kvs)"
| "removeDefaultFields (GSlice items) = GSlice (removeDefaultFields_slice items)"
| "removeDefaultFields GNil = GNil"
| "removeDefaultFields (GBool b) = GBool b"
| "removeDefaultFields (GFloat64 r) = GFloat64 r"
| "removeDefaultFields (GInt i) = GInt i"
| "removeDefaultFields (GString s) = GString s"
| "removeDefaultFields_map [] = []"
| "removeDefaultFields_map ((key, v) # kvs) =
     (if isDefaultField key v then removeDefaultFields_map kvs
      else (key, removeDefaultFields v) # removeDefaultFields_map kvs)"
| "removeDefaultFields_slice [] = []"
| "removeDefaultFields_slice (item # items) =
     removeDefaultFields item # removeDefaultFields_slice items"

text \<open>\<^verbatim>\<open>normalizeJSON(jsonStr string) (string, error)\<close>.\<close>

definition normalizeJSON :: "json_pkg \<Rightarrow> string \<Rightarrow> error + string" where
  "normalizeJSON json jsonStr =
     (case Unmarshal json jsonStr of
        Inl err \<Rightarrow> Inl err
      | Inr data \<Rightarrow> Marshal json (removeDefaultFields data))"

text \<open>
  \<^verbatim>\<open>areJSONsSemanticallyEqual(json1, json2 string) bool\<close>: every error of the decoder or of
  the encoder is answered with \<^verbatim>\<open>false\<close>.
\<close>

definition areJSONsSemanticallyEqual :: "json_pkg \<Rightarrow> string \<Rightarrow> string \<Rightarrow> bool" where
  "areJSONsSemanticallyEqual json json1 json2 =
     (case Unmarshal json json1 of
        Inl err \<Rightarrow> False
      | Inr data1 \<Rightarrow>
          (case Unmarshal json json2 of
             Inl err \<Rightarrow> False
           | Inr data2 \<Rightarrow>
               (case Marshal json (removeDefaultFields data1) of
                  Inl err \<Rightarrow> False
                | Inr bytes1 \<Rightarrow>
                    (case Marshal json (removeDefaultFields data2) of
                       Inl err \<Rightarrow> False
                     | Inr bytes2 \<Rightarrow> bytes1 = bytes2))))"

section \<open>A model of \<^verbatim>\<open>encoding/json\<close>\<close>

text \<open>
  \<open>encoding_json\<close> below models the package on a fragment of JSON, for evaluating the
  provider on concrete texts. The fragment: the whole structure of JSON (objects, arrays,
  the three literals, white space, nesting up to the decoder's limit of 10000), numbers
  that are integer literals of magnitude at most \<open>2 ^ 53\<close> (which \<^verbatim>\<open>float64\<close> holds
  exactly), and strings of ASCII bytes with the escapes of JSON. A text or value beyond the
  fragment (a fraction or an exponent, \<^verbatim>\<open>-0\<close>, a byte above \<open>0x7F\<close>, a \<^verbatim>\<open>\u\<close> escape
  above \<open>0x7F\<close>, a control character to encode) is answered with \<open>OutsideFragment\<close>, which
  says nothing about the package. A map decoded from an object is kept in increasing key
  order (the order in which the encoder writes it), a repeated key keeps its last value.
\<close>

definition is_ws :: "char \<Rightarrow> bool" where
  "is_ws c = (c = CHR '' '' \<or> c = CHR 0x09 \<or> c = CHR 0x0A \<or> c = CHR 0x0D)"

definition skip_ws :: "string \<Rightarrow> string" where
  "skip_ws s = dropWhile is_ws s"

definition is_digit :: "char \<Rightarrow> bool" where
  "is_digit c = (48 \<le> (of_char c :: nat) \<and> (of_char c :: nat) \<le> 57)"

definition digit_val :: "char \<Rightarrow> nat" where
  "digit_val c = of_char c - 48"

definition digits_val :: "string \<Rightarrow> nat" where
  "digits_val ds = foldl (\<lambda>n c. 10 * n + digit_val c) 0 ds"

definition hex_val :: "char \<Rightarrow> nat option" where
  "hex_val c =
     (let n = (of_char c :: nat) in
      if 48 \<le> n \<and> n \<le> 57 then Some (n - 48)
      else if 97 \<le> n \<and> n \<le> 102 then Some (n - 87)
      else if 65 \<le> n \<and> n \<le> 70 then Some (n - 55)
      else None)"

definition max_exact :: nat where
  "max_exact = 9007199254740992"

definition scan_number :: "string \<Rightarrow> error + (gval \<times> string)" where
  "scan_number s =
     (let neg = (case s of [] \<Rightarrow> False | c # r \<Rightarrow> c = CHR ''-'');
          s1 = (if neg then tl s else s);
          ds = takeWhile is_digit s1;
          r = dropWhile is_digit s1;
          n = digits_val ds
      in if ds = [] then Inl SyntaxError
         else if hd ds = CHR ''0'' \<and> length ds > 1 then Inl SyntaxError
         else if (case r of [] \<Rightarrow> False
                  | c # r' \<Rightarrow> c = CHR ''.'' \<or> c = CHR ''e'' \<or> c = CHR ''E'')
           then Inl OutsideFragment
         else if max_exact < n \<or> (neg \<and> n = 0) then Inl OutsideFragment
         else Inr (GFloat64 (if neg then - real n else real n), r))"

definition scan_literal :: "string \<Rightarrow> gval \<Rightarrow> string \<Rightarrow> error + (gval \<times> string)" where
  "scan_literal lit v s =
     (if take (length lit) s = lit then Inr (v, drop (length lit) s) else Inl SyntaxError)"

definition unescape :: "char \<Rightarrow> char option" where
  "unescape e =
     (if e = CHR 0x22 then Some (CHR 0x22)
      else if e = CHR 0x5C then Some (CHR 0x5C)
      else if e = CHR ''/'' then Some (CHR ''/'')
      else if e = CHR ''b'' then Some (CHR 0x08)
      else if e = CHR ''f'' then Some (CHR 0x0C)
      else if e = CHR ''n'' then Some (CHR 0x0A)
      else if e = CHR ''r'' then Some (CHR 0x0D)
      else if e = CHR ''t'' then Some (CHR 0x09)
      else None)"

definition unescape_u :: "string \<Rightarrow> error + char" where
  "unescape_u hs =
     (case map hex_val hs of
        [Some a, Some b, Some c, Some d] \<Rightarrow>
          (let n = ((a * 16 + b) * 16 + c) * 16 + d in
           if n < 128 then Inr (char_of n) else Inl OutsideFragment)
      | _ \<Rightarrow> Inl SyntaxError)"

definition cons_result ::
  "char \<Rightarrow> error + (string \<times> string) \<Rightarrow> error + (string \<times> string)" where
  "cons_result c res = (case res of Inl err \<Rightarrow> Inl err | Inr (str, r) \<Rightarrow> Inr (c # str, r))"

text \<open>The body of a string, after its opening quote: the decoded bytes and the rest.\<close>

fun scan_string :: "string \<Rightarrow> error + (string \<times> string)" where
  "scan_string [] = Inl SyntaxError"
| "scan_string (c # r) =
     (if c = CHR 0x22 then Inr ([], r)
      else if c = CHR 0x5C then
        (case r of
           [] \<Rightarrow> Inl SyntaxError
         | e # r' \<Rightarrow>
             (if e = CHR ''u'' then
                (case unescape_u (take 4 r') of
                   Inl err \<Rightarrow> Inl err
                 | Inr d \<Rightarrow> cons_result d (scan_string (drop 4 r')))
              else
                (case unescape e of
                   None \<Rightarrow> Inl SyntaxError
                 | Some d \<Rightarrow> cons_result d (scan_string r'))))
      else if (of_char c :: nat) < 32 then Inl SyntaxError
      else if 128 \<le> (of_char c :: nat) then Inl OutsideFragment
      else cons_result c (scan_string r))"

lemma scan_string_shorter: "scan_string s = Inr (str, r) \<Longrightarrow> length r < length s"
proof (induction s arbitrary: str r rule: scan_string.induct)
  case 1
  then show ?case by simp
next
  case (2 c r0)
  then show ?case
    by (fastforce simp: cons_result_def less_Suc_eq
          split: if_splits list.splits sum.splits option.splits prod.splits)
qed

text \<open>Go compares strings byte by byte; the encoder writes the keys of a map in that order.\<close>

fun str_less :: "string \<Rightarrow> string \<Rightarrow> bool" where
  "str_less [] [] = False"
| "str_less [] (y # ys) = True"
| "str_less (x # xs) [] = False"
| "str_less (x # xs) (y # ys) =
     (if (of_char x :: nat) < of_char y then True
      else if (of_char y :: nat) < of_char x then False
      else str_less xs ys)"

text \<open>
  The assignment \<^verbatim>\<open>m[k] = v\<close> on a map kept in key order: an existing key gets the new
  value, a new key is inserted at its place.
\<close>

fun map_set :: "string \<Rightarrow> 'a \<Rightarrow> (string \<times> 'a) list \<Rightarrow> (string \<times> 'a) list" where
  "map_set k v [] = [(k, v)]"
| "map_set k v ((k', v') # kvs) =
     (if k = k' then (k, v) # kvs
      else if str_less k k' then (k, v) # (k', v') # kvs
      else (k', v') # map_set k v kvs)"

definition max_depth :: nat where
  "max_depth = 10000"

text \<open>
  The decoder, by recursive descent: \<open>parse_value\<close> reads one value at nesting \<open>depth\<close>,
  \<open>parse_elements\<close> the elements of an array after the first has been found to exist,
  \<open>parse_members\<close> the members of an object. Each returns the value and the unread rest.
  The tests \<open>length r < length s\<close> hold whenever they are reached (a value is at least one
  byte long); they make the recursion well-founded.
\<close>

function parse_value :: "nat \<Rightarrow> string \<Rightarrow> error + (gval \<times> string)"
  and parse_elements :: "nat \<Rightarrow> gval list \<Rightarrow> string \<Rightarrow> error + (gval \<times> string)"
  and parse_members ::
    "nat \<Rightarrow> (string \<times> gval) list \<Rightarrow> string \<Rightarrow> error + (gval \<times> string)" where
  "parse_value depth s =
     (case skip_ws s of
        [] \<Rightarrow> Inl SyntaxError
      | c # r \<Rightarrow>
          (if c = CHR ''{'' then
             (if max_depth \<le> depth then Inl SyntaxError
              else (case skip_ws r of
                      [] \<Rightarrow> Inl SyntaxError
                    | c' # r' \<Rightarrow>
                        (if c' = CHR ''}'' then Inr (GMap [], r')
                         else parse_members (Suc depth) [] (c' # r'))))
           else if c = CHR ''['' then
             (if max_depth \<le> depth then Inl SyntaxError
              else (case skip_ws r of
                      [] \<Rightarrow> Inl SyntaxError
                    | c' # r' \<Rightarrow>
                        (if c' = CHR '']'' then Inr (GSlice [], r')
                         else parse_elements (Suc depth) [] (c' # r'))))
           else if c = CHR 0x22 then
             (case scan_string r of
                Inl err \<Rightarrow> Inl err
              | Inr (str, r') \<Rightarrow> Inr (GString str, r'))
           else if c = CHR ''t'' then scan_literal ''true'' (GBool True) (c # r)
           else if c = CHR ''f'' then scan_literal ''false'' (GBool False) (c # r)
           else if c = CHR ''n'' then scan_literal ''null'' GNil (c # r)
           else scan_number (c # r)))"
| "parse_elements depth acc s =
     (case parse_value depth s of
        Inl err \<Rightarrow> Inl err
      | Inr (v, r) \<Rightarrow>
          (if length r < length s then
             (case skip_ws r of
                [] \<Rightarrow> Inl SyntaxError
              | c # r' \<Rightarrow>
                  (if c = CHR '','' then parse_elements depth (acc @ [v]) r'
                   else if c = CHR '']'' then Inr (GSlice (acc @ [v]), r')
                   else Inl SyntaxError))
           else Inl SyntaxError))"
| "parse_members depth acc s =
     (case skip_ws s of
        [] \<Rightarrow> Inl SyntaxError
      | c # r \<Rightarrow>
          (if c = CHR 0x22 then
             (case scan_string r of
                Inl err \<Rightarrow> Inl err
              | Inr (key, r1) \<Rightarrow>
                  (case skip_ws r1 of
                     [] \<Rightarrow> Inl SyntaxError
                   | c1 # r2 \<Rightarrow>
                       (if c1 = CHR '':'' then
                          (case parse_value depth r2 of
                             Inl err \<Rightarrow> Inl err
                           | Inr (v, r3) \<Rightarrow>
                               (if length r3 < length r2 then
                                  (case skip_ws r3 of
                                     [] \<Rightarrow> Inl SyntaxError
                                   | c3 # r4 \<Rightarrow>
                                       (if c3 = CHR '','' then
                                          parse_members depth (map_set key v acc) r4
                                        else if c3 = CHR ''}'' then
                                          Inr (GMap (map_set key v acc), r4)
                                        else Inl SyntaxError))
                                else Inl SyntaxError))
                        else Inl SyntaxError)))
           else Inl SyntaxError))"
  by pat_completeness auto

lemma skip_ws_le: "length (skip_ws s) \<le> length s"
  by (simp add: skip_ws_def length_dropWhile_le)

lemma skip_ws_Cons_less: "skip_ws s = c # r \<Longrightarrow> length r < length s"
  using skip_ws_le [of s] by simp

termination parse_value
  apply (relation "measure (\<lambda>x. case x of
      Inl (d, s) \<Rightarrow> 2 * length s
    | Inr (Inl (d, acc, s)) \<Rightarrow> 2 * length s + 1
    | Inr (Inr (d, acc, s)) \<Rightarrow> 2 * length s + 1)")
       apply simp
      apply (auto dest!: skip_ws_Cons_less scan_string_shorter)
  done

declare parse_value.simps [simp del] parse_elements.simps [simp del]
  parse_members.simps [simp del]

text \<open>
  A successful parse consumes at least one byte, so the two length tests of the loops
  never fail: the loops are the plain recursive descent (\<open>parse_elements_plain\<close>,
  \<open>parse_members_plain\<close>).
\<close>

lemma scan_number_shorter: "scan_number s = Inr (v, r) \<Longrightarrow> length r < length s"
proof -
  assume a: "scan_number s = Inr (v, r)"
  define s1 where "s1 = (if (case s of [] \<Rightarrow> False | c # r \<Rightarrow> c = CHR ''-'') then tl s else s)"
  from a have r: "r = dropWhile is_digit s1" and ds: "takeWhile is_digit s1 \<noteq> []"
    by (auto simp: scan_number_def Let_def s1_def split: if_splits)
  have "length (takeWhile is_digit s1) + length (dropWhile is_digit s1) = length s1"
    by (metis length_append takeWhile_dropWhile_id)
  with ds have "length (dropWhile is_digit s1) < length s1"
    by (cases "takeWhile is_digit s1") auto
  moreover have "length s1 \<le> length s"
    by (simp add: s1_def)
  ultimately show ?thesis
    using r by simp
qed

lemma scan_literal_shorter:
  "scan_literal lit v s = Inr (v', r) \<Longrightarrow> lit \<noteq> [] \<Longrightarrow> length r < length s"
  by (cases lit) (auto simp: scan_literal_def split: if_splits dest: arg_cong [where f = length])

lemma parse_loops_shorter:
  assumes IH: "\<And>s' d acc v r. length s' < length s \<Longrightarrow>
      (parse_elements d acc s' = Inr (v, r) \<longrightarrow> length r < length s')"
    and IH': "\<And>s' d acc v r. length s' < length s \<Longrightarrow>
      (parse_members d acc s' = Inr (v, r) \<longrightarrow> length r < length s')"
  shows "parse_elements d acc s = Inr (v, r) \<Longrightarrow> length r < length s"
    and "parse_members d acc' s = Inr (v, r) \<Longrightarrow> length r < length s"
proof -
  assume p: "parse_elements d acc s = Inr (v, r)"
  from p [unfolded parse_elements.simps [of d acc s]]
  obtain v1 r1 c r' where g: "length r1 < length s" and sk: "skip_ws r1 = c # r'"
    and alt: "(c = CHR '','' \<and> parse_elements d (acc @ [v1]) r' = Inr (v, r)) \<or> r = r'"
    by (auto split: sum.splits prod.splits if_splits list.splits)
  from sk have l: "length r' < length r1"
    by (rule skip_ws_Cons_less)
  from alt show "length r < length s"
  proof
    assume "c = CHR '','' \<and> parse_elements d (acc @ [v1]) r' = Inr (v, r)"
    with IH [of r' d "acc @ [v1]" v r] g l show ?thesis
      by simp
  next
    assume "r = r'"
    with g l show ?thesis
      by simp
  qed
next
  assume p: "parse_members d acc' s = Inr (v, r)"
  have step: "parse_members d' acc'' s' = Inr (v', r') \<Longrightarrow> length s' < length s
      \<Longrightarrow> length r' < length s" for d' acc'' s' v' r'
    using IH' [of s' d' acc'' v' r'] by simp
  from p [unfolded parse_members.simps [of d acc' s]]
  show "length r < length s"
    apply (auto split: sum.splits prod.splits if_splits list.splits
          dest!: skip_ws_Cons_less scan_string_shorter)
     apply (erule step, simp)
    done
qed

lemma parse_result_shorter:
  "(parse_value d s = Inr (v, r) \<longrightarrow> length r < length s) \<and>
   (parse_elements d acc s = Inr (v, r) \<longrightarrow> length r < length s) \<and>
   (parse_members d acc' s = Inr (v, r) \<longrightarrow> length r < length s)"
proof (induction "length s" arbitrary: s d acc acc' v r rule: less_induct)
  case less
  have e: "parse_elements d acc s = Inr (v, r) \<Longrightarrow> length r < length s" for d acc v r
    by (rule parse_loops_shorter(1) [of s]) (use less in blast)+
  have m: "parse_members d acc s = Inr (v, r) \<Longrightarrow> length r < length s" for d acc v r
    by (rule parse_loops_shorter(2) [of s]) (use less in blast)+
  have "length r < length s" if p: "parse_value d s = Inr (v, r)"
  proof -
    note p' = p [unfolded parse_value.simps [of d s]]
    from p' obtain c r0 where sk: "skip_ws s = c # r0"
      by (auto split: list.splits)
    then have l0: "length r0 < length s"
      by (rule skip_ws_Cons_less)
    show ?thesis
    proof (cases "c = CHR ''{'' \<or> c = CHR ''[''")
      case False
      with p' sk l0 show ?thesis
        by (auto split: if_splits sum.splits prod.splits
            dest!: scan_string_shorter scan_number_shorter scan_literal_shorter)
    next
      case True
      with p' sk obtain c' r' where sk': "skip_ws r0 = c' # r'"
        by (auto split: list.splits if_splits)
      then have l1: "length r' < length r0"
        using skip_ws_Cons_less by blast
      from True p' sk sk' have
        "r = r' \<or> parse_members (Suc d) [] (c' # r') = Inr (v, r) \<or>
         parse_elements (Suc d) [] (c' # r') = Inr (v, r)"
        by (auto split: if_splits)
      moreover have "length (c' # r') < length s"
        using l0 l1 by simp
      ultimately show ?thesis
        using less [of "c' # r'"] l0 l1 by fastforce
    qed
  qed
  with e m show ?case
    by blast
qed


lemma parse_value_shorter: "parse_value d s = Inr (v, r) \<Longrightarrow> length r < length s"
  using parse_result_shorter by blast

lemma parse_elements_plain:
  "parse_elements depth acc s =
     (case parse_value depth s of
        Inl err \<Rightarrow> Inl err
      | Inr (v, r) \<Rightarrow>
          (case skip_ws r of
             [] \<Rightarrow> Inl SyntaxError
           | c # r' \<Rightarrow>
               (if c = CHR '','' then parse_elements depth (acc @ [v]) r'
                else if c = CHR '']'' then Inr (GSlice (acc @ [v]), r')
                else Inl SyntaxError)))"
  by (subst parse_elements.simps) (auto split: sum.splits dest: parse_value_shorter)

lemma parse_members_plain:
  "parse_members depth acc s =
     (case skip_ws s of
        [] \<Rightarrow> Inl SyntaxError
      | c # r \<Rightarrow>
          (if c = CHR 0x22 then
             (case scan_string r of
                Inl err \<Rightarrow> Inl err
              | Inr (key, r1) \<Rightarrow>
                  (case skip_ws r1 of
                     [] \<Rightarrow> Inl SyntaxError
                   | c1 # r2 \<Rightarrow>
                       (if c1 = CHR '':'' then
                          (case parse_value depth r2 of
                             Inl err \<Rightarrow> Inl err
                           | Inr (v, r3) \<Rightarrow>
                               (case skip_ws r3 of
                                  [] \<Rightarrow> Inl SyntaxError
                                | c3 # r4 \<Rightarrow>
                                    (if c3 = CHR '','' then
                                       parse_members depth (map_set key v acc) r4
                                     else if c3 = CHR ''}'' then
                                       Inr (GMap (map_set key v acc), r4)
                                     else Inl SyntaxError)))
                        else Inl SyntaxError)))
           else Inl SyntaxError))"
  by (subst parse_members.simps)
     (auto split: sum.splits list.splits dest: parse_value_shorter)

text \<open>\<^verbatim>\<open>json.Unmarshal\<close> into an \<^verbatim>\<open>interface{}\<close>: one value, then white space only.\<close>

definition json_Unmarshal :: "string \<Rightarrow> error + gval" where
  "json_Unmarshal s =
     (case parse_value 0 s of
        Inl err \<Rightarrow> Inl err
      | Inr (v, r) \<Rightarrow> (if skip_ws r = [] then Inr v else Inl SyntaxError))"

definition digit_char :: "nat \<Rightarrow> char" where
  "digit_char d = ''0123456789'' ! d"

fun itoa_nat :: "nat \<Rightarrow> string" where
  "itoa_nat n =
     (if n < 10 then [digit_char n] else itoa_nat (n div 10) @ [digit_char (n mod 10)])"

declare itoa_nat.simps [simp del]

definition itoa :: "int \<Rightarrow> string" where
  "itoa i = (if i < 0 then CHR ''-'' # itoa_nat (nat (- i)) else itoa_nat (nat i))"

definition format_float :: "real \<Rightarrow> error + string" where
  "format_float r =
     (if r = of_int \<lfloor>r\<rfloor> \<and> \<bar>r\<bar> \<le> real max_exact then Inr (itoa \<lfloor>r\<rfloor>)
      else Inl OutsideFragment)"

text \<open>
  The encoder escapes the quote, the backslash, the line feed, the carriage return and the
  tab, and (as \<^verbatim>\<open>json.Marshal\<close> does by default) \<^verbatim>\<open><\<close>, \<^verbatim>\<open>>\<close> and \<^verbatim>\<open>&\<close>.
\<close>

definition escape_char :: "char \<Rightarrow> error + string" where
  "escape_char c =
     (if c = CHR 0x22 then Inr [CHR 0x5C, CHR 0x22]
      else if c = CHR 0x5C then Inr [CHR 0x5C, CHR 0x5C]
      else if c = CHR 0x0A then Inr [CHR 0x5C, CHR ''n'']
      else if c = CHR 0x0D then Inr [CHR 0x5C, CHR ''r'']
      else if c = CHR 0x09 then Inr [CHR 0x5C, CHR ''t'']
      else if c = CHR ''<'' then Inr (CHR 0x5C # ''u003c'')
      else if c = CHR ''>'' then Inr (CHR 0x5C # ''u003e'')
      else if c = CHR ''&'' then Inr (CHR 0x5C # ''u0026'')
      else if (of_char c :: nat) < 32 \<or> 128 \<le> (of_char c :: nat) then Inl OutsideFragment
      else Inr [c])"

fun escape_string :: "string \<Rightarrow> error + string" where
  "escape_string [] = Inr []"
| "escape_string (c # cs) =
     (case escape_char c of
        Inl err \<Rightarrow> Inl err
      | Inr e \<Rightarrow> (case escape_string cs of Inl err \<Rightarrow> Inl err | Inr es \<Rightarrow> Inr (e @ es)))"

definition encode_string :: "string \<Rightarrow> error + string" where
  "encode_string s =
     (case escape_string s of
        Inl err \<Rightarrow> Inl err
      | Inr es \<Rightarrow> Inr (CHR 0x22 # es @ [CHR 0x22]))"

fun join_comma :: "string list \<Rightarrow> string" where
  "join_comma [] = []"
| "join_comma [x] = x"
| "join_comma (x # y # ys) = x @ CHR '','' # join_comma (y # ys)"

fun sorted_keys :: "(string \<times> 'a) list \<Rightarrow> (string \<times> 'a) list" where
  "sorted_keys [] = []"
| "sorted_keys ((k, v) # kvs) = map_set k v (sorted_keys kvs)"

fun encode_member :: "string \<times> string \<Rightarrow> error + string" where
  "encode_member (k, text) =
     (case encode_string k of Inl err \<Rightarrow> Inl err | Inr ks \<Rightarrow> Inr (ks @ CHR '':'' # text))"

fun sequence :: "(error + 'a) list \<Rightarrow> error + 'a list" where
  "sequence [] = Inr []"
| "sequence (x # xs) =
     (case x of
        Inl err \<Rightarrow> Inl err
      | Inr y \<Rightarrow> (case sequence xs of Inl err \<Rightarrow> Inl err | Inr ys \<Rightarrow> Inr (y # ys)))"

text \<open>
  \<^verbatim>\<open>json.Marshal\<close>: compact, the keys of a map sorted. \<open>marshal_members\<close> encodes the
  values of a map, \<open>marshal_items\<close> the elements of a slice.
\<close>

fun json_Marshal :: "gval \<Rightarrow> error + string"
  and marshal_members :: "(string \<times> gval) list \<Rightarrow> error + (string \<times> string) list"
  and marshal_items :: "gval list \<Rightarrow> error + string list" where
  "json_Marshal GNil = Inr ''null''"
| "json_Marshal (GBool b) = Inr (if b then ''true'' else ''false'')"
| "json_Marshal (GFloat64 r) = format_float r"
| "json_Marshal (GInt i) = Inr (itoa i)"
| "json_Marshal (GString s) = encode_string s"
| "json_Marshal (GSlice items) =
     (case marshal_items items of
        Inl err \<Rightarrow> Inl err
      | Inr texts \<Rightarrow> Inr (CHR ''['' # join_comma texts @ '']''))"
| "json_Marshal (GMap kvs) =
     (case marshal_members kvs of
        Inl err \<Rightarrow> Inl err
      | Inr texts \<Rightarrow>
          (case sequence (map encode_member (sorted_keys texts)) of
             Inl err \<Rightarrow> Inl err
           | Inr ms \<Rightarrow> Inr (CHR ''{'' # join_comma ms @ ''}'')))"
| "marshal_members [] = Inr []"
| "marshal_members ((k, v) # kvs) =
     (case json_Marshal v of
        Inl err \<Rightarrow> Inl err
      | Inr text \<Rightarrow>
          (case marshal_members kvs of
             Inl err \<Rightarrow> Inl err
           | Inr texts \<Rightarrow> Inr ((k, text) # texts)))"
| "marshal_items [] = Inr []"
| "marshal_items (v # vs) =
     (case json_Marshal v of
        Inl err \<Rightarrow> Inl err
      | Inr text \<Rightarrow>
          (case marshal_items vs of Inl err \<Rightarrow> Inl err | Inr texts \<Rightarrow> Inr (text # texts)))"

definition encoding_json :: json_pkg where
  "encoding_json = \<lparr>Unmarshal = json_Unmarshal, Marshal = json_Marshal\<rparr>"

lemmas json_eval =
  json_Unmarshal_def parse_value.simps parse_elements.simps parse_members.simps
  skip_ws_def is_ws_def scan_number_def scan_literal_def is_digit_def digits_val_def
  digit_val_def max_exact_def max_depth_def cons_result_def unescape_def unescape_u_def
  hex_val_def format_float_def itoa_def itoa_nat.simps digit_char_def escape_char_def
  encode_string_def encoding_json_def

subsection \<open>The values and the texts that the package itself produces\<close>

text \<open>
  The values that the decoder produces: the keys of every map increase strictly, and no
  number is an \<^verbatim>\<open>int\<close>. \<open>nesting\<close> counts the arrays and objects around the innermost value.
\<close>

fun well_formed :: "gval \<Rightarrow> bool"
  and well_formed_members :: "(string \<times> gval) list \<Rightarrow> bool"
  and well_formed_items :: "gval list \<Rightarrow> bool" where
  "well_formed (GMap kvs) = (sorted_wrt str_less (map fst kvs) \<and> well_formed_members kvs)"
| "well_formed (GSlice items) = well_formed_items items"
| "well_formed (GInt i) = False"
| "well_formed GNil = True"
| "well_formed (GBool b) = True"
| "well_formed (GFloat64 r) = True"
| "well_formed (GString s) = True"
| "well_formed_members [] = True"
| "well_formed_members ((k, v) # kvs) = (well_formed v \<and> well_formed_members kvs)"
| "well_formed_items [] = True"
| "well_formed_items (v # vs) = (well_formed v \<and> well_formed_items vs)"

fun nesting :: "gval \<Rightarrow> nat"
  and nesting_members :: "(string \<times> gval) list \<Rightarrow> nat"
  and nesting_items :: "gval list \<Rightarrow> nat" where
  "nesting (GMap kvs) = Suc (nesting_members kvs)"
| "nesting (GSlice items) = Suc (nesting_items items)"
| "nesting GNil = 0"
| "nesting (GBool b) = 0"
| "nesting (GFloat64 r) = 0"
| "nesting (GInt i) = 0"
| "nesting (GString s) = 0"
| "nesting_members [] = 0"
| "nesting_members ((k, v) # kvs) = max (nesting v) (nesting_members kvs)"
| "nesting_items [] = 0"
| "nesting_items (v # vs) = max (nesting v) (nesting_items vs)"

text \<open>What may follow a value in a text that the encoder wrote.\<close>

definition value_end :: "string \<Rightarrow> bool" where
  "value_end rest =
     (case rest of [] \<Rightarrow> True | c # r \<Rightarrow> c = CHR '','' \<or> c = CHR '']'' \<or> c = CHR ''}'')"

section \<open>Values of the Terraform plugin framework and of the Go library\<close>

text \<open>
  \<^verbatim>\<open>types.String\<close>, \<^verbatim>\<open>types.Bool\<close>, \<^verbatim>\<open>types.List\<close> and \<^verbatim>\<open>types.Map\<close> (of strings): a value
  is null, unknown or known. \<open>ValueString\<close> and \<open>ValueBool\<close> give the zero value for a null
  or unknown one, \<open>Elements\<close> the empty collection.
\<close>

datatype tf_string = StringNull | StringUnknown | StringValue string

datatype tf_bool = BoolNull | BoolUnknown | BoolValue bool

datatype tf_list = ListNull | ListUnknown | ListValue "tf_string list"

datatype tf_map = MapNull | MapUnknown | MapValue "string \<Rightarrow> tf_string option"

fun ValueString :: "tf_string \<Rightarrow> string" where
  "ValueString (StringValue s) = s"
| "ValueString StringNull = []"
| "ValueString StringUnknown = []"

fun IsNull :: "tf_string \<Rightarrow> bool" where
  "IsNull StringNull = True"
| "IsNull StringUnknown = False"
| "IsNull (StringValue s) = False"

fun IsUnknown :: "tf_string \<Rightarrow> bool" where
  "IsUnknown StringUnknown = True"
| "IsUnknown StringNull = False"
| "IsUnknown (StringValue s) = False"

fun ValueBool :: "tf_bool \<Rightarrow> bool" where
  "ValueBool (BoolValue b) = b"
| "ValueBool BoolNull = False"
| "ValueBool BoolUnknown = False"

fun ListElements :: "tf_list \<Rightarrow> tf_string list" where
  "ListElements (ListValue xs) = xs"
| "ListElements ListNull = []"
| "ListElements ListUnknown = []"

fun MapElements :: "tf_map \<Rightarrow> string \<Rightarrow> tf_string option" where
  "MapElements (MapValue m) = m"
| "MapElements MapNull = Map.empty"
| "MapElements MapUnknown = Map.empty"

text \<open>
  \<^verbatim>\<open>strconv.Quote\<close>, which \<^verbatim>\<open>fmt.Sprintf("%q", s)\<close> applies: the string between double
  quotes, with the quote and the backslash escaped by a backslash and the control characters
  written as escapes. A byte from \<open>0x80\<close> on is kept, which is what \<^verbatim>\<open>Quote\<close> does for the
  printable runes.
\<close>

definition hex_digit :: "nat \<Rightarrow> char" where
  "hex_digit n = ''0123456789abcdef'' ! n"

definition quote_char :: "char \<Rightarrow> string" where
  "quote_char c =
     (if c = CHR 0x22 then [CHR 0x5C, CHR 0x22]
      else if c = CHR 0x5C then [CHR 0x5C, CHR 0x5C]
      else if c = CHR 0x07 then [CHR 0x5C, CHR ''a'']
      else if c = CHR 0x08 then [CHR 0x5C, CHR ''b'']
      else if c = CHR 0x0C then [CHR 0x5C, CHR ''f'']
      else if c = CHR 0x0A then [CHR 0x5C, CHR ''n'']
      else if c = CHR 0x0D then [CHR 0x5C, CHR ''r'']
      else if c = CHR 0x09 then [CHR 0x5C, CHR ''t'']
      else if c = CHR 0x0B then [CHR 0x5C, CHR ''v'']
      else if (of_char c :: nat) < 32 \<or> (of_char c :: nat) = 127
        then [CHR 0x5C, CHR ''x'', hex_digit (of_char c div 16), hex_digit (of_char c mod 16)]
      else [c])"

definition strconv_Quote :: "string \<Rightarrow> string" where
  "strconv_Quote s = CHR 0x22 # concat (map quote_char s) @ [CHR 0x22]"

text \<open>
  \<^verbatim>\<open>(types.String).String()\<close>, the framework's human-readable form of a value: the quoted
  string for a known value.
\<close>

fun String_tf :: "tf_string \<Rightarrow> string" where
  "String_tf (StringValue s) = strconv_Quote s"
| "String_tf StringNull = ''<null>''"
| "String_tf StringUnknown = ''<unknown>''"

text \<open>
  \<^verbatim>\<open>strings.Trim(s, cutset)\<close>, \<^verbatim>\<open>strings.TrimSpace(s)\<close> and \<^verbatim>\<open>strings.Split(s, sep)\<close> for a
  separator of one byte.
\<close>

definition strings_Trim :: "string \<Rightarrow> string \<Rightarrow> string" where
  "strings_Trim s cutset =
     rev (dropWhile (\<lambda>c. c \<in> set cutset) (rev (dropWhile (\<lambda>c. c \<in> set cutset) s)))"

definition strings_TrimSpace :: "string \<Rightarrow> string" where
  "strings_TrimSpace s =
     strings_Trim s [CHR '' '', CHR 0x09, CHR 0x0A, CHR 0x0B, CHR 0x0C, CHR 0x0D]"

fun strings_Split :: "string \<Rightarrow> char \<Rightarrow> string list" where
  "strings_Split [] sep = [[]]"
| "strings_Split (c # cs) sep =
     (if c = sep then [] # strings_Split cs sep
      else (case strings_Split cs sep of
              [] \<Rightarrow> [[c]]
            | part # parts \<Rightarrow> (c # part) # parts))"

text \<open>The lookup \<^verbatim>\<open>m[k]\<close> in a \<^verbatim>\<open>map[string]interface{}\<close>: \<^verbatim>\<open>nil\<close> for a missing key.\<close>

definition map_get :: "(string \<times> gval) list \<Rightarrow> string \<Rightarrow> gval" where
  "map_get m k = (case map_of m k of None \<Rightarrow> GNil | Some v \<Rightarrow> v)"

text \<open>
  \<^verbatim>\<open>structure.ExpandJsonFromString\<close> and \<^verbatim>\<open>structure.FlattenJsonToString\<close> of the Terraform
  SDK. The first decodes into a \<^verbatim>\<open>map[string]interface{}\<close>: an object gives a map, \<^verbatim>\<open>null\<close>
  the nil map (\<open>None\<close>), any other value a type error. The second gives the empty string for
  a map without entries and encodes any other.
\<close>

definition ExpandJsonFromString ::
  "json_pkg \<Rightarrow> string \<Rightarrow> error + (string \<times> gval) list option" where
  "ExpandJsonFromString json jsonString =
     (case Unmarshal json jsonString of
        Inl err \<Rightarrow> Inl err
      | Inr v \<Rightarrow>
          (case v of
             GMap result \<Rightarrow> Inr (Some result)
           | GNil \<Rightarrow> Inr None
           | _ \<Rightarrow> Inl UnmarshalTypeError))"

definition FlattenJsonToString :: "json_pkg \<Rightarrow> (string \<times> gval) list \<Rightarrow> error + string" where
  "FlattenJsonToString json input =
     (if length input = 0 then Inr [] else Marshal json (GMap input))"

section \<open>The alert model (model/alert.go)\<close>

text \<open>
  The struct \<^verbatim>\<open>model.Alert\<close>, its fields prefixed with \<open>a_\<close> (the annotations flattened to
  \<open>a_Description\<close> and \<open>a_Summary\<close>). \<open>a_Condition\<close> is \<open>None\<close> for the nil map.
\<close>

record Alert =
  a_ID :: string
  a_Alert :: string
  a_AlertType :: string
  a_Description :: string
  a_Summary :: string
  a_BroadcastToAll :: bool
  a_Condition :: "(string \<times> gval) list option"
  a_Disabled :: bool
  a_EvalWindow :: string
  a_Frequency :: string
  a_Labels :: "string \<Rightarrow> string option"
  a_PreferredChannels :: "string list"
  a_RuleType :: string
  a_Source :: string
  a_State :: string
  a_Version :: string
  a_CreateAt :: string
  a_CreateBy :: string
  a_UpdateAt :: string
  a_UpdateBy :: string

definition AlertTerraformLabel :: string where
  "AlertTerraformLabel = ''managedBy:terraform''"

text \<open>
  Modelled from the spec: the constant \<^verbatim>\<open>attr.Severity\<close> of the package \<^verbatim>\<open>attr\<close>, which is
  not among the sources; the key under which the severity label is stored.
\<close>

definition attr_Severity :: string where
  "attr_Severity = ''severity''"

text \<open>
  \<^verbatim>\<open>normalizeCondition\<close> adds the fields the API expects: to every builder query (a map under
  \<^verbatim>\<open>compositeQuery.builderQueries\<close>) and to the root. \<open>normalizeQuery\<close> is the body of its
  loop. The test \<^verbatim>\<open>m[k] == nil\<close> holds for a missing key and for a key bound to \<^verbatim>\<open>nil\<close>.
\<close>

definition set_if_nil ::
  "string \<Rightarrow> gval \<Rightarrow> (string \<times> gval) list \<Rightarrow> (string \<times> gval) list" where
  "set_if_nil k v m = (if map_get m k = GNil then map_set k v m else m)"

definition normalizeQuery :: "string \<Rightarrow> (string \<times> gval) list \<Rightarrow> (string \<times> gval) list" where
  "normalizeQuery queryName queryMap =
     (let q1 = set_if_nil ''IsAnomaly'' (GBool False) queryMap;
          q2 = set_if_nil ''QueriesUsedInFormula'' GNil q1;
          q3 = set_if_nil ''groupBy'' (GSlice []) q2;
          q4 = (if queryName = ''A'' then set_if_nil ''hidden'' (GBool True) q3 else q3)
      in if queryName = ''F1''
         then set_if_nil ''timeAggregation'' (GString [])
                (set_if_nil ''spaceAggregation'' (GString [])
                  (set_if_nil ''reduceTo'' (GString []) q4))
         else q4)"

fun normalizeQueries :: "(string \<times> gval) list \<Rightarrow> (string \<times> gval) list" where
  "normalizeQueries [] = []"
| "normalizeQueries ((queryName, query) # rest) =
     (queryName, (case query of GMap queryMap \<Rightarrow> GMap (normalizeQuery queryName queryMap)
                  | _ \<Rightarrow> query))
       # normalizeQueries rest"

definition normalizeCondition :: "(string \<times> gval) list \<Rightarrow> (string \<times> gval) list" where
  "normalizeCondition condition =
     (let c1 =
        (case map_get condition ''compositeQuery'' of
           GMap compositeQuery \<Rightarrow>
             (case map_get compositeQuery ''builderQueries'' of
                GMap builderQueries \<Rightarrow>
                  map_set ''compositeQuery''
                    (GMap (map_set ''builderQueries'' (GMap (normalizeQueries builderQueries))
                             compositeQuery))
                    condition
              | _ \<Rightarrow> condition)
         | _ \<Rightarrow> condition)
      in set_if_nil ''alertOnAbsent'' (GBool False) (set_if_nil ''absentFor'' (GInt 0) c1))"

text \<open>
  \<^verbatim>\<open>(a *Alert) SetCondition\<close>. For the text \<^verbatim>\<open>null\<close> the decoded map is the nil map, and the
  first assignment of \<^verbatim>\<open>normalizeCondition\<close> panics.
\<close>

definition SetCondition :: "json_pkg \<Rightarrow> Alert \<Rightarrow> tf_string \<Rightarrow> error + Alert" where
  "SetCondition json a tfCondition =
     (case ExpandJsonFromString json (ValueString tfCondition) of
        Inl err \<Rightarrow> Inl err
      | Inr None \<Rightarrow> Inl NilMapPanic
      | Inr (Some condition) \<Rightarrow> Inr (a\<lparr>a_Condition := Some (normalizeCondition condition)\<rparr>))"

text \<open>\<^verbatim>\<open>(a Alert) ConditionToTerraform\<close>, with its fallback branch.\<close>

definition ConditionToTerraform :: "json_pkg \<Rightarrow> Alert \<Rightarrow> error + tf_string" where
  "ConditionToTerraform json a =
     (let condition = (case a_Condition a of None \<Rightarrow> [] | Some kvs \<Rightarrow> kvs) in
      case removeDefaultFields (GMap condition) of
        GMap normalizedMap \<Rightarrow>
          (case FlattenJsonToString json normalizedMap of
             Inl err \<Rightarrow> Inl err
           | Inr c \<Rightarrow> Inr (StringValue c))
      | _ \<Rightarrow>
          (case FlattenJsonToString json condition of
             Inl err \<Rightarrow> Inl err
           | Inr c \<Rightarrow> Inr (StringValue c)))"

text \<open>\<^verbatim>\<open>(a *Alert) SetLabels\<close> and \<^verbatim>\<open>(a Alert) LabelsToTerraform\<close>.\<close>

definition SetLabels :: "Alert \<Rightarrow> tf_map \<Rightarrow> tf_string \<Rightarrow> Alert" where
  "SetLabels a tfLabels tfSeverity =
     (let labels = (\<lambda>key. case MapElements tfLabels key of
                            None \<Rightarrow> None
                          | Some v \<Rightarrow> Some (strings_Trim (String_tf v) [CHR 0x22]));
          terraformLabel = strings_Split AlertTerraformLabel (CHR '':'');
          labels1 = labels(strings_TrimSpace (terraformLabel ! 0) \<mapsto>
                           strings_TrimSpace (terraformLabel ! 1));
          labels2 = (if ValueString tfSeverity \<noteq> []
                     then labels1(attr_Severity \<mapsto> ValueString tfSeverity) else labels1)
      in a\<lparr>a_Labels := labels2\<rparr>)"

definition LabelsToTerraform :: "Alert \<Rightarrow> tf_map" where
  "LabelsToTerraform a =
     (let terraformLabels = strings_Split AlertTerraformLabel (CHR '':'') in
      MapValue (\<lambda>key. if key = attr_Severity \<or> key = terraformLabels ! 0 then None
                       else (case a_Labels a key of
                               None \<Rightarrow> None
                             | Some v \<Rightarrow> Some (StringValue v))))"

definition SetPreferredChannels :: "Alert \<Rightarrow> tf_list \<Rightarrow> Alert" where
  "SetPreferredChannels a tfPreferredChannels =
     a\<lparr>a_PreferredChannels :=
         map (\<lambda>v. strings_Trim (String_tf v) [CHR 0x22]) (ListElements tfPreferredChannels)\<rparr>"

definition PreferredChannelsToTerraform :: "Alert \<Rightarrow> tf_list" where
  "PreferredChannelsToTerraform a = ListValue (map StringValue (a_PreferredChannels a))"

section \<open>A model of \<^verbatim>\<open>crypto/sha256\<close>\<close>

text \<open>
  SHA-256 as FIPS 180-4 defines it, on words of 32 bits (the constants in decimal): the message is padded with the
  byte \<open>0x80\<close>, zero bytes and its length in bits (64 bits, big endian) to a multiple of 64
  bytes, and each block of sixteen words is compressed into the state of eight words.
  \<open>sha256_hex\<close> is \<^verbatim>\<open>hex.EncodeToString\<close> of \<^verbatim>\<open>sha256.Sum256\<close>.
\<close>

definition sha256_K :: "32 word list" where
  "sha256_K =
    [1116352408, 1899447441, 3049323471, 3921009573, 961987163, 1508970993, 2453635748,
     2870763221, 3624381080, 310598401, 607225278, 1426881987, 1925078388, 2162078206,
     2614888103, 3248222580, 3835390401, 4022224774, 264347078, 604807628, 770255983,
     1249150122, 1555081692, 1996064986, 2554220882, 2821834349, 2952996808, 3210313671,
     3336571891, 3584528711, 113926993, 338241895, 666307205, 773529912, 1294757372,
     1396182291, 1695183700, 1986661051, 2177026350, 2456956037, 2730485921, 2820302411,
     3259730800, 3345764771, 3516065817, 3600352804, 4094571909, 275423344, 430227734,
     506948616, 659060556, 883997877, 958139571, 1322822218, 1537002063, 1747873779,
     1955562222, 2024104815, 2227730452, 2361852424, 2428436474, 2756734187, 3204031479,
     3329325298]"

definition sha256_H0 :: "32 word list" where
  "sha256_H0 =
    [1779033703, 3144134277, 1013904242, 2773480762, 1359893119, 2600822924, 528734635,
     1541459225]"

definition rotr :: "nat \<Rightarrow> 32 word \<Rightarrow> 32 word" where
  "rotr n w = (drop_bit n w) OR (push_bit (32 - n) w)"

definition bsig0 :: "32 word \<Rightarrow> 32 word" where
  "bsig0 x = rotr 2 x XOR rotr 13 x XOR rotr 22 x"

definition bsig1 :: "32 word \<Rightarrow> 32 word" where
  "bsig1 x = rotr 6 x XOR rotr 11 x XOR rotr 25 x"

definition ssig0 :: "32 word \<Rightarrow> 32 word" where
  "ssig0 x = rotr 7 x XOR rotr 18 x XOR drop_bit 3 x"

definition ssig1 :: "32 word \<Rightarrow> 32 word" where
  "ssig1 x = rotr 17 x XOR rotr 19 x XOR drop_bit 10 x"

definition ch :: "32 word \<Rightarrow> 32 word \<Rightarrow> 32 word \<Rightarrow> 32 word" where
  "ch x y z = (x AND y) XOR (NOT x AND z)"

definition maj :: "32 word \<Rightarrow> 32 word \<Rightarrow> 32 word \<Rightarrow> 32 word" where
  "maj x y z = (x AND y) XOR (x AND z) XOR (y AND z)"

definition be_bytes :: "nat \<Rightarrow> nat \<Rightarrow> nat list" where
  "be_bytes k n = map (\<lambda>i. (n div 256 ^ (k - 1 - i)) mod 256) [0..<k]"

definition sha256_pad :: "nat list \<Rightarrow> nat list" where
  "sha256_pad m =
     (let l = length m; z = (119 - l mod 64) mod 64
      in m @ [128] @ replicate z 0 @ be_bytes 8 (8 * l))"

fun be_words :: "nat list \<Rightarrow> 32 word list" where
  "be_words (a # b # c # d # r) =
     word_of_nat (((a * 256 + b) * 256 + c) * 256 + d) # be_words r"
| "be_words r = []"

text \<open>The message schedule; \<open>ws\<close> holds the words computed so far, the latest first.\<close>

fun schedule :: "nat \<Rightarrow> 32 word list \<Rightarrow> 32 word list" where
  "schedule 0 ws = ws"
| "schedule (Suc n) ws =
     schedule n ((ssig1 (ws ! 1) + ws ! 6 + ssig0 (ws ! 14) + ws ! 15) # ws)"

fun sha256_round :: "32 word list \<Rightarrow> 32 word \<times> 32 word \<Rightarrow> 32 word list" where
  "sha256_round [a, b, c, d, e, f, g, h] (k, w) =
     (let t1 = h + bsig1 e + ch e f g + k + w;
          t2 = bsig0 a + maj a b c
      in [t1 + t2, a, b, c, d + t1, e, f, g])"
| "sha256_round st kw = st"

definition compress :: "32 word list \<Rightarrow> 32 word list \<Rightarrow> 32 word list" where
  "compress hs block =
     (let ws = rev (schedule 48 (rev block))
      in map2 (+) hs (foldl sha256_round hs (zip sha256_K ws)))"

fun blocks :: "nat \<Rightarrow> 'a list \<Rightarrow> 'a list list" where
  "blocks 0 xs = []"
| "blocks (Suc n) xs = take 16 xs # blocks n (drop 16 xs)"

definition sha256_words :: "nat list \<Rightarrow> 32 word list" where
  "sha256_words m =
     (let ws = be_words (sha256_pad m)
      in foldl compress sha256_H0 (blocks (length ws div 16) ws))"

definition hex_word :: "32 word \<Rightarrow> string" where
  "hex_word w = map (\<lambda>i. hex_digit ((unat w div 16 ^ (7 - i)) mod 16)) [0..<8]"

definition sha256_hex :: "string \<Rightarrow> string" where
  "sha256_hex s = concat (map hex_word (sha256_words (map of_char s)))"

section \<open>The dashboard model (model/dashboard.go, the revision that hashes the widgets)\<close>

text \<open>
  The struct \<^verbatim>\<open>model.Dashboard\<close>, its fields prefixed with \<open>d_\<close>. The layout (a
  \<^verbatim>\<open>[]map[string]interface{}\<close>) is kept as the dynamic value it was decoded from; the panel map
  and the variables are \<open>None\<close> for the nil map; the widgets are an \<^verbatim>\<open>interface{}\<close>.
\<close>

record Dashboard =
  d_CollapsableRowsMigrated :: bool
  d_Description :: string
  d_Layout :: gval
  d_Name :: string
  d_PanelMap :: "(string \<times> gval) list option"
  d_Source :: string
  d_Tags :: "string list"
  d_Title :: string
  d_UploadedGrafana :: bool
  d_Variables :: "(string \<times> gval) list option"
  d_Version :: string
  d_Widgets :: gval

text \<open>
  \<^verbatim>\<open>json.Unmarshal\<close> into a \<^verbatim>\<open>[]map[string]interface{}\<close> accepts \<^verbatim>\<open>null\<close> and an array whose
  elements are objects or \<^verbatim>\<open>null\<close>.
\<close>

fun is_map_slice_elems :: "gval list \<Rightarrow> bool" where
  "is_map_slice_elems [] = True"
| "is_map_slice_elems (v # vs) =
     ((case v of GMap m \<Rightarrow> True | GNil \<Rightarrow> True | _ \<Rightarrow> False) \<and> is_map_slice_elems vs)"

definition is_map_slice :: "gval \<Rightarrow> bool" where
  "is_map_slice v = (case v of GNil \<Rightarrow> True | GSlice vs \<Rightarrow> is_map_slice_elems vs | _ \<Rightarrow> False)"

definition SetLayout :: "json_pkg \<Rightarrow> Dashboard \<Rightarrow> tf_string \<Rightarrow> error + Dashboard" where
  "SetLayout json d tfLayout =
     (case Unmarshal json (ValueString tfLayout) of
        Inl err \<Rightarrow> Inl err
      | Inr layout \<Rightarrow>
          (if is_map_slice layout then Inr (d\<lparr>d_Layout := layout\<rparr>)
           else Inl UnmarshalTypeError))"

definition SetPanelMap :: "json_pkg \<Rightarrow> Dashboard \<Rightarrow> tf_string \<Rightarrow> error + Dashboard" where
  "SetPanelMap json d tfPanelMap =
     (if ValueString tfPanelMap = [] then Inr (d\<lparr>d_PanelMap := Some []\<rparr>)
      else (case ExpandJsonFromString json (ValueString tfPanelMap) of
              Inl err \<Rightarrow> Inl err
            | Inr panelMap \<Rightarrow> Inr (d\<lparr>d_PanelMap := panelMap\<rparr>)))"

definition SetVariables :: "json_pkg \<Rightarrow> Dashboard \<Rightarrow> tf_string \<Rightarrow> error + Dashboard" where
  "SetVariables json d tfVariables =
     (case ExpandJsonFromString json (ValueString tfVariables) of
        Inl err \<Rightarrow> Inl err
      | Inr variables \<Rightarrow> Inr (d\<lparr>d_Variables := variables\<rparr>))"

definition SetTags :: "Dashboard \<Rightarrow> tf_list \<Rightarrow> Dashboard" where
  "SetTags d tfTags =
     d\<lparr>d_Tags := map (\<lambda>v. strings_Trim (String_tf v) [CHR 0x22]) (ListElements tfTags)\<rparr>"

definition TagsToTerraform :: "Dashboard \<Rightarrow> tf_list" where
  "TagsToTerraform d = ListValue (map StringValue (d_Tags d))"

text \<open>\<^verbatim>\<open>SetWidgets\<close> and \<^verbatim>\<open>WidgetsToTerraform\<close>.\<close>

definition SetWidgets :: "Dashboard \<Rightarrow> tf_string \<Rightarrow> error + Dashboard" where
  "SetWidgets d tfWidgets =
     (let widgetsStr = ValueString tfWidgets in
      if widgetsStr = [] then Inr (d\<lparr>d_Widgets := GString []\<rparr>)
      else Inr (d\<lparr>d_Widgets := GString (sha256_hex widgetsStr)\<rparr>))"

definition WidgetsToTerraform :: "json_pkg \<Rightarrow> Dashboard \<Rightarrow> error + tf_string" where
  "WidgetsToTerraform json d =
     (case d_Widgets d of
        GNil \<Rightarrow> Inr (StringValue [])
      | GString widgetsStr \<Rightarrow> Inr (StringValue widgetsStr)
      | widgets \<Rightarrow>
          (case Marshal json widgets of
             Inl err \<Rightarrow> Inl err
           | Inr b \<Rightarrow> Inr (StringValue (sha256_hex b))))"

section \<open>The remote API\<close>

text \<open>
  The client of the remote API is a collaborator. A dashboard is returned in an envelope
  with its identifier and audit fields; the envelope's type is not among the sources, its
  fields are those \<^verbatim>\<open>dashboardResource.Read\<close> reads. \<open>UpdateAlert\<close> and \<open>UpdateDashboard\<close>
  answer \<open>None\<close> on success.
\<close>

record DashboardEnvelope =
  e_ID :: string
  e_CreatedAt :: string
  e_CreatedBy :: string
  e_UpdatedAt :: string
  e_UpdatedBy :: string
  e_Data :: Dashboard

record client =
  GetAlert :: "string \<Rightarrow> error + Alert"
  UpdateAlert :: "string \<Rightarrow> Alert \<Rightarrow> error option"
  GetDashboard :: "string \<Rightarrow> error + DashboardEnvelope"
  UpdateDashboard :: "string \<Rightarrow> Dashboard \<Rightarrow> error option"

section \<open>The alert resource (provider/resource/alert.go)\<close>

text \<open>The struct \<^verbatim>\<open>alertResourceModel\<close>, its fields prefixed with \<open>am_\<close>.\<close>

record alertResourceModel =
  am_ID :: tf_string
  am_Alert :: tf_string
  am_AlertType :: tf_string
  am_BroadcastToAll :: tf_bool
  am_Condition :: tf_string
  am_Description :: tf_string
  am_Disabled :: tf_bool
  am_EvalWindow :: tf_string
  am_Frequency :: tf_string
  am_Labels :: tf_map
  am_PreferredChannels :: tf_list
  am_RuleType :: tf_string
  am_Severity :: tf_string
  am_Source :: tf_string
  am_State :: tf_string
  am_Summary :: tf_string
  am_Version :: tf_string
  am_CreateAt :: tf_string
  am_CreateBy :: tf_string
  am_UpdateAt :: tf_string
  am_UpdateBy :: tf_string

text \<open>
  \<^verbatim>\<open>jsonSemanticEqualityModifier.PlanModifyString\<close>: the planned value of the condition, given
  the value in the state.
\<close>

definition PlanModifyString :: "json_pkg \<Rightarrow> tf_string \<Rightarrow> tf_string \<Rightarrow> tf_string" where
  "PlanModifyString json stateValue planValue =
     (if IsNull stateValue \<or> IsUnknown stateValue then planValue
      else if IsNull planValue \<or> IsUnknown planValue then planValue
      else if areJSONsSemanticallyEqual json (ValueString planValue) (ValueString stateValue)
        then stateValue
      else planValue)"

text \<open>
  \<^verbatim>\<open>alertResource.Read\<close>: the next state, or the error that leaves the state as it was.
\<close>

definition alert_Read ::
  "json_pkg \<Rightarrow> client \<Rightarrow> alertResourceModel \<Rightarrow> error + alertResourceModel" where
  "alert_Read json cl state =
     (case GetAlert cl (ValueString (am_ID state)) of
        Inl err \<Rightarrow> Inl err
      | Inr alert \<Rightarrow>
          (let state1 = state
                 \<lparr>am_Alert := StringValue (a_Alert alert),
                  am_AlertType := StringValue (a_AlertType alert),
                  am_BroadcastToAll := BoolValue (a_BroadcastToAll alert),
                  am_Description := StringValue (a_Description alert),
                  am_Disabled := BoolValue (a_Disabled alert),
                  am_EvalWindow := StringValue (a_EvalWindow alert),
                  am_Frequency := StringValue (a_Frequency alert),
                  am_RuleType := StringValue (a_RuleType alert),
                  am_Severity := StringValue (case a_Labels alert attr_Severity of
                                                None \<Rightarrow> [] | Some v \<Rightarrow> v),
                  am_Source := StringValue (a_Source alert),
                  am_State := StringValue (a_State alert),
                  am_Summary := StringValue (a_Summary alert),
                  am_Version := StringValue (a_Version alert),
                  am_CreateAt := StringValue (a_CreateAt alert),
                  am_CreateBy := StringValue (a_CreateBy alert),
                  am_UpdateAt := StringValue (a_UpdateAt alert),
                  am_UpdateBy := StringValue (a_UpdateBy alert)\<rparr>
           in case ConditionToTerraform json alert of
                Inl err \<Rightarrow> Inl err
              | Inr condition \<Rightarrow>
                  Inr (state1\<lparr>am_Condition := condition,
                              am_Labels := LabelsToTerraform alert,
                              am_PreferredChannels := PreferredChannelsToTerraform alert\<rparr>)))"

text \<open>
  \<^verbatim>\<open>alertResource.Update\<close>: the request body is built from the plan, sent, and the next
  state is the plan with the condition merged and the server-managed fields of the state.
\<close>

definition alert_payload :: "alertResourceModel \<Rightarrow> alertResourceModel \<Rightarrow> Alert" where
  "alert_payload plan state =
     \<lparr>a_ID = ValueString (am_ID state),
      a_Alert = ValueString (am_Alert plan),
      a_AlertType = ValueString (am_AlertType plan),
      a_Description = ValueString (am_Description plan),
      a_Summary = ValueString (am_Summary plan),
      a_BroadcastToAll = ValueBool (am_BroadcastToAll plan),
      a_Condition = None,
      a_Disabled = ValueBool (am_Disabled plan),
      a_EvalWindow = ValueString (am_EvalWindow plan),
      a_Frequency = ValueString (am_Frequency plan),
      a_Labels = Map.empty,
      a_PreferredChannels = [],
      a_RuleType = ValueString (am_RuleType plan),
      a_Source = ValueString (am_Source plan),
      a_State = ValueString (am_State state),
      a_Version = ValueString (am_Version plan),
      a_CreateAt = ValueString (am_CreateAt state),
      a_CreateBy = ValueString (am_CreateBy state),
      a_UpdateAt = ValueString (am_UpdateAt state),
      a_UpdateBy = ValueString (am_UpdateBy state)\<rparr>"

definition alert_Update ::
  "json_pkg \<Rightarrow> client \<Rightarrow> alertResourceModel \<Rightarrow> alertResourceModel
     \<Rightarrow> error + alertResourceModel" where
  "alert_Update json cl plan state =
     (case SetCondition json (alert_payload plan state) (am_Condition plan) of
        Inl err \<Rightarrow> Inl err
      | Inr a1 \<Rightarrow>
          (let alertUpdate =
                 SetPreferredChannels (SetLabels a1 (am_Labels plan) (am_Severity plan))
                   (am_PreferredChannels plan)
           in case UpdateAlert cl (ValueString (am_ID state)) alertUpdate of
                Some err \<Rightarrow> Inl err
              | None \<Rightarrow>
                  (let plan1 =
                         (if \<not> IsNull (am_Condition state) \<and> \<not> IsUnknown (am_Condition state)
                          then (if areJSONsSemanticallyEqual json
                                     (ValueString (am_Condition plan))
                                     (ValueString (am_Condition state))
                                then plan\<lparr>am_Condition := am_Condition state\<rparr>
                                else plan)
                          else plan)
                   in Inr (plan1\<lparr>am_ID := am_ID state,
                                  am_CreateAt := am_CreateAt state,
                                  am_CreateBy := am_CreateBy state,
                                  am_UpdateAt := am_UpdateAt state,
                                  am_UpdateBy := am_UpdateBy state,
                                  am_Source := am_Source state,
                                  am_State := am_State state\<rparr>))))"

section \<open>The dashboard resource (provider/resource/dashboard.go)\<close>

text \<open>The struct \<^verbatim>\<open>dashboardResourceModel\<close>, its fields prefixed with \<open>dm_\<close>.\<close>

record dashboardResourceModel =
  dm_CollapsableRowsMigrated :: tf_bool
  dm_CreatedAt :: tf_string
  dm_CreatedBy :: tf_string
  dm_Description :: tf_string
  dm_ID :: tf_string
  dm_Layout :: tf_string
  dm_Name :: tf_string
  dm_PanelMap :: tf_string
  dm_Source :: tf_string
  dm_Tags :: tf_list
  dm_Title :: tf_string
  dm_UpdatedAt :: tf_string
  dm_UpdatedBy :: tf_string
  dm_UploadedGrafana :: tf_bool
  dm_Variables :: tf_string
  dm_Version :: tf_string
  dm_Widgets :: tf_string

text \<open>\<^verbatim>\<open>dashboardResource.Read\<close>.\<close>

definition dashboard_Read ::
  "client \<Rightarrow> dashboardResourceModel \<Rightarrow> error + dashboardResourceModel" where
  "dashboard_Read cl state =
     (case GetDashboard cl (ValueString (dm_ID state)) of
        Inl err \<Rightarrow> Inl err
      | Inr dashboard \<Rightarrow>
          (let originalWidgets = dm_Widgets state;
               originalLayout = dm_Layout state;
               originalPanelMap = dm_PanelMap state;
               originalVariables = dm_Variables state;
               state1 = state
                 \<lparr>dm_CollapsableRowsMigrated :=
                    BoolValue (d_CollapsableRowsMigrated (e_Data dashboard)),
                  dm_CreatedAt := StringValue (e_CreatedAt dashboard),
                  dm_CreatedBy := StringValue (e_CreatedBy dashboard),
                  dm_Description := StringValue (d_Description (e_Data dashboard)),
                  dm_ID := StringValue (e_ID dashboard),
                  dm_Name := StringValue (d_Name (e_Data dashboard)),
                  dm_Source := StringValue (d_Source (e_Data dashboard)),
                  dm_Title := StringValue (d_Title (e_Data dashboard)),
                  dm_UpdatedAt := StringValue (e_UpdatedAt dashboard),
                  dm_UpdatedBy := StringValue (e_UpdatedBy dashboard),
                  dm_UploadedGrafana := BoolValue (d_UploadedGrafana (e_Data dashboard)),
                  dm_Version := StringValue (d_Version (e_Data dashboard))\<rparr>
           in Inr (state1\<lparr>dm_Widgets := originalWidgets,
                           dm_Layout := originalLayout,
                           dm_PanelMap := originalPanelMap,
                           dm_Variables := originalVariables,
                           dm_Tags := TagsToTerraform (e_Data dashboard)\<rparr>)))"

text \<open>\<^verbatim>\<open>dashboardResource.Update\<close>: the request body is built from the plan, step by step.\<close>

definition dashboard_payload :: "dashboardResourceModel \<Rightarrow> Dashboard" where
  "dashboard_payload plan =
     \<lparr>d_CollapsableRowsMigrated = ValueBool (dm_CollapsableRowsMigrated plan),
      d_Description = ValueString (dm_Description plan),
      d_Layout = GNil,
      d_Name = ValueString (dm_Name plan),
      d_PanelMap = None,
      d_Source = [],
      d_Tags = [],
      d_Title = ValueString (dm_Title plan),
      d_UploadedGrafana = ValueBool (dm_UploadedGrafana plan),
      d_Variables = None,
      d_Version = ValueString (dm_Version plan),
      d_Widgets = GNil\<rparr>"

definition dashboard_Update ::
  "json_pkg \<Rightarrow> client \<Rightarrow> dashboardResourceModel \<Rightarrow> dashboardResourceModel
     \<Rightarrow> error + dashboardResourceModel" where
  "dashboard_Update json cl plan state =
     (case SetLayout json (dashboard_payload plan) (dm_Layout plan) of
        Inl err \<Rightarrow> Inl err
      | Inr d1 \<Rightarrow>
     (case SetPanelMap json d1 (dm_PanelMap plan) of
        Inl err \<Rightarrow> Inl err
      | Inr d2 \<Rightarrow>
     (case SetVariables json (SetTags d2 (dm_Tags plan)) (dm_Variables plan) of
        Inl err \<Rightarrow> Inl err
      | Inr d3 \<Rightarrow>
     (case SetWidgets d3 (dm_Widgets plan) of
        Inl err \<Rightarrow> Inl err
      | Inr dashboardUpdate \<Rightarrow>
     (case UpdateDashboard cl (ValueString (dm_ID state)) dashboardUpdate of
        Some err \<Rightarrow> Inl err
      | None \<Rightarrow>
          Inr (plan\<lparr>dm_ID := dm_ID state,
                    dm_CreatedAt := dm_CreatedAt state,
                    dm_CreatedBy := dm_CreatedBy state,
                    dm_UpdatedAt := dm_UpdatedAt state,
                    dm_UpdatedBy := dm_UpdatedBy state,
                    dm_Source := dm_Source state\<rparr>))))))"

section \<open>Sample inputs\<close>

text \<open>
  A state and a plan of an alert and of a dashboard, a remote alert and a remote dashboard,
  and a remote API that accepts every update and answers every read with these two.
\<close>

definition alert_state0 :: alertResourceModel where
  \<open>alert_state0 =
     \<lparr>am_ID = StringValue ''7'',
      am_Alert = StringValue ''cpu'',
      am_AlertType = StringValue ''METRIC_BASED_ALERT'',
      am_BroadcastToAll = BoolValue False,
      am_Condition = StringValue ''{"a":1}'',
      am_Description = StringValue ''high cpu'',
      am_Disabled = BoolValue False,
      am_EvalWindow = StringValue ''5m0s'',
      am_Frequency = StringValue ''1m0s'',
      am_Labels = MapValue Map.empty,
      am_PreferredChannels = ListValue [],
      am_RuleType = StringValue ''threshold_rule'',
      am_Severity = StringValue ''critical'',
      am_Source = StringValue ''signoz/alerts'',
      am_State = StringValue ''inactive'',
      am_Summary = StringValue ''cpu'',
      am_Version = StringValue ''v4'',
      am_CreateAt = StringValue ''t0'',
      am_CreateBy = StringValue ''alice'',
      am_UpdateAt = StringValue ''t1'',
      am_UpdateBy = StringValue ''bob''\<rparr>\<close>

definition alert_plan0 :: alertResourceModel where
  \<open>alert_plan0 =
     alert_state0
       \<lparr>am_ID := StringUnknown,
        am_Condition := StringValue ''{"a":2}'',
        am_Source := StringValue ''elsewhere'',
        am_State := StringValue ''firing'',
        am_CreateAt := StringValue ''t8'',
        am_CreateBy := StringValue ''mallory'',
        am_UpdateAt := StringValue ''t9'',
        am_UpdateBy := StringValue ''mallory''\<rparr>\<close>

definition alert_plan1 :: alertResourceModel where
  \<open>alert_plan1 =
     alert_plan0\<lparr>am_Condition := StringValue ''{"absentFor":0,"alertOnAbsent":false,"a":1}''\<rparr>\<close>

definition remote_alert0 :: Alert where
  "remote_alert0 =
     \<lparr>a_ID = ''7'',
      a_Alert = ''cpu'',
      a_AlertType = ''METRIC_BASED_ALERT'',
      a_Description = ''high cpu'',
      a_Summary = ''cpu'',
      a_BroadcastToAll = False,
      a_Condition = Some [(''a'', GFloat64 2)],
      a_Disabled = False,
      a_EvalWindow = ''5m0s'',
      a_Frequency = ''1m0s'',
      a_Labels = [''severity'' \<mapsto> ''critical''],
      a_PreferredChannels = [],
      a_RuleType = ''threshold_rule'',
      a_Source = ''signoz/alerts'',
      a_State = ''firing'',
      a_Version = ''v4'',
      a_CreateAt = ''t0'',
      a_CreateBy = ''alice'',
      a_UpdateAt = ''t2'',
      a_UpdateBy = ''carol''\<rparr>"

definition dashboard_state0 :: dashboardResourceModel where
  "dashboard_state0 =
     \<lparr>dm_CollapsableRowsMigrated = BoolValue True,
      dm_CreatedAt = StringValue ''t0'',
      dm_CreatedBy = StringValue ''alice'',
      dm_Description = StringValue ''main'',
      dm_ID = StringValue ''9'',
      dm_Layout = StringValue ''[]'',
      dm_Name = StringValue ''main'',
      dm_PanelMap = StringValue ''{}'',
      dm_Source = StringValue ''signoz/dashboard'',
      dm_Tags = ListValue [],
      dm_Title = StringValue ''Main'',
      dm_UpdatedAt = StringValue ''t1'',
      dm_UpdatedBy = StringValue ''bob'',
      dm_UploadedGrafana = BoolValue False,
      dm_Variables = StringValue ''{}'',
      dm_Version = StringValue ''v4'',
      dm_Widgets = StringValue ''[]''\<rparr>"

definition dashboard_plan0 :: dashboardResourceModel where
  "dashboard_plan0 =
     dashboard_state0
       \<lparr>dm_ID := StringUnknown,
        dm_Widgets := StringValue ''[ ]'',
        dm_Source := StringValue ''elsewhere'',
        dm_CreatedAt := StringValue ''t8'',
        dm_CreatedBy := StringValue ''mallory'',
        dm_UpdatedAt := StringValue ''t9'',
        dm_UpdatedBy := StringValue ''mallory''\<rparr>"

definition remote_dashboard0 :: DashboardEnvelope where
  "remote_dashboard0 =
     \<lparr>e_ID = ''9'',
      e_CreatedAt = ''t0'',
      e_CreatedBy = ''alice'',
      e_UpdatedAt = ''t2'',
      e_UpdatedBy = ''carol'',
      e_Data =
        \<lparr>d_CollapsableRowsMigrated = True,
         d_Description = ''main, renamed'',
         d_Layout = GSlice [GMap [(''i'', GString ''w1'')]],
         d_Name = ''main'',
         d_PanelMap = Some [],
         d_Source = ''signoz/dashboard'',
         d_Tags = [''prod''],
         d_Title = ''Main'',
         d_UploadedGrafana = False,
         d_Variables = Some [],
         d_Version = ''v5'',
         d_Widgets = GSlice [GMap [(''id'', GString ''w1'')]]\<rparr>\<rparr>"

definition remote_ok :: client where
  "remote_ok =
     \<lparr>GetAlert = (\<lambda>id. Inr remote_alert0),
      UpdateAlert = (\<lambda>id alert. None),
      GetDashboard = (\<lambda>id. Inr remote_dashboard0),
      UpdateDashboard = (\<lambda>id dashboard. None)\<rparr>"

section \<open>Evaluations shared by the properties below\<close>

lemma unmarshal_a1: \<open>Unmarshal encoding_json ''{"a":1}'' = Inr (GMap [(''a'', GFloat64 1)])\<close>
  by (simp add: json_eval)

lemma unmarshal_a2: \<open>Unmarshal encoding_json ''{"a":2}'' = Inr (GMap [(''a'', GFloat64 2)])\<close>
  by (simp add: json_eval)

lemma unmarshal_absent:
  \<open>Unmarshal encoding_json ''{"absentFor":0,"alertOnAbsent":false,"a":1}'' =
     Inr (GMap [(''a'', GFloat64 1), (''absentFor'', GFloat64 0),
                (''alertOnAbsent'', GBool False)])\<close>
  by (simp add: json_eval)

lemma unmarshal_brace: \<open>Unmarshal encoding_json ''{'' = Inl SyntaxError\<close>
  by (simp add: json_eval)

lemma unmarshal_empty_arrays:
  \<open>Unmarshal encoding_json ''[ ]'' = Inr (GSlice [])\<close>
  \<open>Unmarshal encoding_json ''[]'' = Inr (GSlice [])\<close>
  by (simp_all add: json_eval)

lemma unmarshal_empty_object: \<open>Unmarshal encoding_json ''{}'' = Inr (GMap [])\<close>
  by (simp add: json_eval)

lemma marshal_a1: \<open>Marshal encoding_json (GMap [(''a'', GFloat64 1)]) = Inr ''{"a":1}''\<close>
  by (simp add: json_eval)

lemma marshal_a2: \<open>Marshal encoding_json (GMap [(''a'', GFloat64 2)]) = Inr ''{"a":2}''\<close>
  by (simp add: json_eval)

lemma marshal_a1_absent:
  \<open>Marshal encoding_json (GMap [(''a'', GFloat64 1), (''absentFor'', GFloat64 0)]) =
     Inr ''{"a":1,"absentFor":0}''\<close>
  by (simp add: json_eval)

lemma marshal_empty_array: \<open>Marshal encoding_json (GSlice []) = Inr ''[]''\<close>
  by (simp add: json_eval)

lemma compare_a2_a1:
  \<open>areJSONsSemanticallyEqual encoding_json ''{"a":2}'' ''{"a":1}'' = False\<close>
  by (simp add: areJSONsSemanticallyEqual_def unmarshal_a1 unmarshal_a2 marshal_a1 marshal_a2
        isDefaultField_def)

lemma compare_absent_a1:
  \<open>areJSONsSemanticallyEqual encoding_json
      ''{"absentFor":0,"alertOnAbsent":false,"a":1}'' ''{"a":1}'' = False\<close>
  by (simp add: areJSONsSemanticallyEqual_def unmarshal_a1 unmarshal_absent marshal_a1
        marshal_a1_absent isDefaultField_def)

lemma compare_empty_arrays: \<open>areJSONsSemanticallyEqual encoding_json ''[ ]'' ''[]''\<close>
  by (simp add: areJSONsSemanticallyEqual_def unmarshal_empty_arrays marshal_empty_array)

lemma alert_Update_plan0:
  \<open>alert_Update encoding_json remote_ok alert_plan0 alert_state0 =
     Inr (alert_state0\<lparr>am_Condition := StringValue ''{"a":2}''\<rparr>)\<close>
  by (simp add: alert_Update_def SetCondition_def ExpandJsonFromString_def unmarshal_a2
        compare_a2_a1 remote_ok_def alert_plan0_def alert_state0_def)

lemma alert_Update_plan1:
  \<open>alert_Update encoding_json remote_ok alert_plan1 alert_state0 =
     Inr (alert_state0
            \<lparr>am_Condition := StringValue ''{"absentFor":0,"alertOnAbsent":false,"a":1}''\<rparr>)\<close>
  by (simp add: alert_Update_def SetCondition_def ExpandJsonFromString_def unmarshal_absent
        compare_absent_a1 remote_ok_def alert_plan1_def alert_plan0_def alert_state0_def)

lemma dashboard_Update_plan0:
  \<open>dashboard_Update encoding_json remote_ok dashboard_plan0 dashboard_state0 =
     Inr (dashboard_state0\<lparr>dm_Widgets := StringValue ''[ ]''\<rparr>)\<close>
  by (simp add: dashboard_Update_def SetLayout_def SetPanelMap_def SetVariables_def
        SetWidgets_def Let_def ExpandJsonFromString_def is_map_slice_def unmarshal_empty_arrays
        unmarshal_empty_object remote_ok_def dashboard_plan0_def dashboard_state0_def)

lemma alert_Read_state0:
  \<open>alert_Read encoding_json remote_ok alert_state0 =
     Inr (alert_state0
            \<lparr>am_State := StringValue ''firing'',
             am_UpdateAt := StringValue ''t2'',
             am_UpdateBy := StringValue ''carol'',
             am_Condition := StringValue ''{"a":2}'',
             am_Labels := LabelsToTerraform remote_alert0,
             am_PreferredChannels := ListValue []\<rparr>)\<close>
  by (simp add: alert_Read_def ConditionToTerraform_def FlattenJsonToString_def marshal_a2
        isDefaultField_def PreferredChannelsToTerraform_def attr_Severity_def remote_ok_def
        remote_alert0_def alert_state0_def)

lemma dashboard_Read_state0:
  \<open>dashboard_Read remote_ok dashboard_state0 =
     Inr (dashboard_state0
            \<lparr>dm_Description := StringValue ''main, renamed'',
             dm_UpdatedAt := StringValue ''t2'',
             dm_UpdatedBy := StringValue ''carol'',
             dm_Version := StringValue ''v5'',
             dm_Tags := ListValue [StringValue ''prod'']\<rparr>)\<close>
  by (simp add: dashboard_Read_def TagsToTerraform_def remote_ok_def remote_dashboard0_def
        dashboard_state0_def)

subsection \<open>Two digests\<close>

text \<open>
  The rules below let the simplifier run the compression function on numerals, one step of
  the message schedule or one round at a time, each new word cut back to 32 bits.
\<close>

lemma replicate_numeral: "replicate (numeral k) x = x # replicate (pred_numeral k) x"
  by (simp add: numeral_eq_Suc)

lemma upt_0_8: "[0..<8] = [0, 1, 2, 3, 4, 5, 6, 7]"
  by (simp add: upt_conv_Cons)

lemma schedule_numeral:
  "schedule (numeral n) ws =
     schedule (pred_numeral n)
       (take_bit 32 (ssig1 (ws ! 1) + ws ! 6 + ssig0 (ws ! 14) + ws ! 15) # ws)"
proof -
  have t: "take_bit 32 x = x" for x :: "32 word"
    by (simp add: take_bit_word_eq_self)
  show ?thesis
    apply (simp only: t)
    apply (simp only: numeral_eq_Suc schedule.simps)
    done
qed

lemma sha256_round_eval:
  "sha256_round [a, b, c, d, e, f, g, h] (k, w) =
     [take_bit 32 (h + bsig1 e + ch e f g + k + w + (bsig0 a + maj a b c)), a, b, c,
      take_bit 32 (d + (h + bsig1 e + ch e f g + k + w)), e, f, g]"
proof -
  have t: "take_bit 32 x = x" for x :: "32 word"
    by (simp add: take_bit_word_eq_self)
  show ?thesis
    by (simp only: t sha256_round.simps Let_def add.assoc)
qed

lemmas sha256_eval =
  sha256_hex_def sha256_words_def sha256_pad_def be_bytes_def replicate_numeral upt_0_8
  compress_def Let_def schedule_numeral sha256_round_eval sha256_K_def sha256_H0_def
  ssig0_def ssig1_def bsig0_def bsig1_def ch_def maj_def rotr_def hex_word_def hex_digit_def

lemma sha256_hex_empty_array:
  "sha256_hex ''[]'' = ''4f53cda18c2baa0c0354bb5f9a3ecbe5ed12ab4d8e11ba873c2f11161202b945''"
  by (simp add: sha256_eval del: sha256_round.simps)

lemma sha256_hex_spaced_array:
  "sha256_hex ''[ ]'' = ''5984eac0c5c6d947241e29dd5671b81a1546cedf77e08d38438ac47029969afa''"
  by (simp add: sha256_eval del: sha256_round.simps)

section \<open>The model of the JSON package reads back what it writes\<close>

subsection \<open>The order of the keys\<close>

lemma str_less_irrefl: "\<not> str_less x x"
  by (induction x) simp_all

lemma str_less_asym: "str_less x y \<Longrightarrow> \<not> str_less y x"
  by (induction x y rule: str_less.induct) (auto split: if_splits)

lemma map_set_last:
  "\<forall>k' \<in> set (map fst acc). str_less k' k \<Longrightarrow> map_set k v acc = acc @ [(k, v)]"
proof (induction acc)
  case Nil
  then show ?case by simp
next
  case (Cons a acc)
  obtain k' v' where a: "a = (k', v')"
    by (cases a)
  with Cons.prems have l: "str_less k' k"
    by simp
  then have "k \<noteq> k'" "\<not> str_less k k'"
    using str_less_irrefl str_less_asym by blast+
  with Cons a show ?case
    by simp
qed

lemma map_set_first:
  "\<forall>k' \<in> set (map fst kvs). str_less k k' \<Longrightarrow> map_set k v kvs = (k, v) # kvs"
proof (cases kvs)
  case Nil
  then show ?thesis by simp
next
  case (Cons a kvs')
  obtain k' v' where a: "a = (k', v')"
    by (cases a)
  assume "\<forall>k' \<in> set (map fst kvs). str_less k k'"
  with Cons a have l: "str_less k k'"
    by simp
  then have "k \<noteq> k'"
    using str_less_irrefl by blast
  with Cons a l show ?thesis
    by simp
qed

lemma sorted_keys_id:
  "sorted_wrt str_less (map fst kvs) \<Longrightarrow> sorted_keys kvs = kvs"
proof (induction kvs)
  case Nil
  then show ?case by simp
next
  case (Cons a kvs)
  obtain k v where a: "a = (k, v)"
    by (cases a)
  with Cons show ?case
    by (simp add: map_set_first)
qed

subsection \<open>Numbers\<close>

lemma digit_char_props:
  assumes "d < 10"
  shows "is_digit (digit_char d)" and "digit_val (digit_char d) = d"
    and "digit_char d = CHR ''0'' \<longleftrightarrow> d = 0"
proof -
  from assms have "d \<in> {0, 1, 2, 3, 4, 5, 6, 7, 8, 9}"
    by auto
  then show "is_digit (digit_char d)" and "digit_val (digit_char d) = d"
    and "digit_char d = CHR ''0'' \<longleftrightarrow> d = 0"
    by (auto simp: digit_char_def is_digit_def digit_val_def)
qed

lemma itoa_nat_digits: "list_all is_digit (itoa_nat n)"
proof (induction n rule: itoa_nat.induct)
  case (1 n)
  then show ?case
    by (subst itoa_nat.simps) (simp add: digit_char_props)
qed

lemma itoa_nat_not_Nil: "itoa_nat n \<noteq> []"
  by (subst itoa_nat.simps) simp

lemma digits_val_snoc: "digits_val (ds @ [c]) = 10 * digits_val ds + digit_val c"
  by (simp add: digits_val_def)

lemma digits_val_itoa_nat: "digits_val (itoa_nat n) = n"
proof (induction n rule: itoa_nat.induct)
  case (1 n)
  show ?case
  proof (cases "n < 10")
    case True
    then show ?thesis
      by (subst itoa_nat.simps) (simp add: digits_val_def digit_char_props)
  next
    case False
    with 1 show ?thesis
      by (subst itoa_nat.simps) (simp add: digits_val_snoc digit_char_props)
  qed
qed

lemma itoa_nat_hd_pos: "0 < n \<Longrightarrow> hd (itoa_nat n) \<noteq> CHR ''0''"
proof (induction n rule: itoa_nat.induct)
  case (1 n)
  show ?case
  proof (cases "n < 10")
    case True
    with "1.prems" show ?thesis
      by (subst itoa_nat.simps) (simp add: digit_char_props)
  next
    case False
    then have "0 < n div 10"
      by simp
    with 1 False have "hd (itoa_nat (n div 10)) \<noteq> CHR ''0''"
      by simp
    with False show ?thesis
      by (subst itoa_nat.simps) (simp add: itoa_nat_not_Nil)
  qed
qed

lemma itoa_nat_hd: "hd (itoa_nat n) = CHR ''0'' \<Longrightarrow> length (itoa_nat n) = 1"
proof -
  assume "hd (itoa_nat n) = CHR ''0''"
  with itoa_nat_hd_pos [of n] have "n = 0"
    by auto
  then show ?thesis
    by (subst itoa_nat.simps) simp
qed

lemma value_end_not_digit: "value_end rest \<Longrightarrow> takeWhile is_digit rest = []"
  by (cases rest) (auto simp: value_end_def is_digit_def)

lemma value_end_dropWhile: "value_end rest \<Longrightarrow> dropWhile is_digit rest = rest"
  by (cases rest) (auto simp: value_end_def is_digit_def)

lemma value_end_skip_ws: "value_end rest \<Longrightarrow> skip_ws rest = rest"
  by (cases rest) (auto simp: value_end_def skip_ws_def is_ws_def)

lemma digits_then_rest:
  assumes "list_all is_digit ds" and "value_end rest"
  shows "takeWhile is_digit (ds @ rest) = ds" and "dropWhile is_digit (ds @ rest) = rest"
  using assms
  by (simp_all add: takeWhile_append2 dropWhile_append2 list_all_iff value_end_not_digit
        value_end_dropWhile)

lemma is_digit_not_minus: "is_digit c \<Longrightarrow> c \<noteq> CHR ''-''"
  by (auto simp: is_digit_def)

lemma scan_number_itoa_nat:
  assumes "value_end rest" and "n \<le> max_exact"
  shows "scan_number (itoa_nat n @ rest) = Inr (GFloat64 (real n), rest)"
proof -
  have d: "list_all is_digit (itoa_nat n)"
    by (rule itoa_nat_digits)
  obtain c cs where cs: "itoa_nat n = c # cs"
    using itoa_nat_not_Nil [of n] by (cases "itoa_nat n") auto
  with d have c: "c \<noteq> CHR ''-''"
    by (simp add: is_digit_not_minus)
  have z: "\<not> (hd (itoa_nat n) = CHR ''0'' \<and> 1 < length (itoa_nat n))"
    using itoa_nat_hd [of n] by auto
  have e: "\<not> (case rest of [] \<Rightarrow> False
               | c # r' \<Rightarrow> c = CHR ''.'' \<or> c = CHR ''e'' \<or> c = CHR ''E'')"
    using assms(1) by (cases rest) (auto simp: value_end_def)
  have neg: "(case itoa_nat n @ rest of [] \<Rightarrow> False | c # r \<Rightarrow> c = CHR ''-'') = False"
    using c by (simp add: cs)
  show ?thesis
    unfolding scan_number_def Let_def neg
    using z e assms(2)
    by (simp add: digits_then_rest [OF d assms(1)] itoa_nat_not_Nil digits_val_itoa_nat)
qed

lemma scan_number_minus_itoa_nat:
  assumes "value_end rest" and "n \<le> max_exact" and "0 < n"
  shows "scan_number (CHR ''-'' # itoa_nat n @ rest) = Inr (GFloat64 (- real n), rest)"
proof -
  have d: "list_all is_digit (itoa_nat n)"
    by (rule itoa_nat_digits)
  have z: "\<not> (hd (itoa_nat n) = CHR ''0'' \<and> 1 < length (itoa_nat n))"
    using itoa_nat_hd [of n] by auto
  have e: "\<not> (case rest of [] \<Rightarrow> False
               | c # r' \<Rightarrow> c = CHR ''.'' \<or> c = CHR ''e'' \<or> c = CHR ''E'')"
    using assms(1) by (cases rest) (auto simp: value_end_def)
  show ?thesis
    unfolding scan_number_def Let_def
    using z e assms(2,3)
    by (simp add: digits_then_rest [OF d assms(1)] itoa_nat_not_Nil digits_val_itoa_nat)
qed

lemma scan_number_format_float:
  assumes "format_float r = Inr s" and "value_end rest"
  shows "scan_number (s @ rest) = Inr (GFloat64 r, rest)"
proof -
  from assms(1) have s: "s = itoa \<lfloor>r\<rfloor>" and i: "r = of_int \<lfloor>r\<rfloor>"
    and b: "\<bar>r\<bar> \<le> real max_exact"
    by (auto simp: format_float_def split: if_splits)
  show ?thesis
  proof (cases "\<lfloor>r\<rfloor> < 0")
    case True
    then have n: "0 < nat (- \<lfloor>r\<rfloor>)"
      by simp
    from b i True have "nat (- \<lfloor>r\<rfloor>) \<le> max_exact"
      by linarith
    from scan_number_minus_itoa_nat [OF assms(2) this n] True i
    show ?thesis
      by (simp add: s itoa_def)
  next
    case False
    from b i False have "nat \<lfloor>r\<rfloor> \<le> max_exact"
      by linarith
    from scan_number_itoa_nat [OF assms(2) this] False i
    show ?thesis
      by (simp add: s itoa_def)
  qed
qed

subsection \<open>Strings\<close>

lemma unescape_u_html:
  "unescape_u ''003c'' = Inr (CHR ''<'')"
  "unescape_u ''003e'' = Inr (CHR ''>'')"
  "unescape_u ''0026'' = Inr (CHR ''&'')"
  by (simp_all add: unescape_u_def hex_val_def char_of_def bit_0)

lemma scan_string_escape_char:
  "escape_char c = Inr e \<Longrightarrow> scan_string (e @ r) = cons_result c (scan_string r)"
  by (auto simp: escape_char_def unescape_def unescape_u_html not_less not_le
        split: if_splits)

lemma scan_string_escape_string:
  "escape_string s = Inr es \<Longrightarrow> scan_string (es @ CHR 0x22 # r) = Inr (s, r)"
proof (induction s arbitrary: es)
  case Nil
  then show ?case by simp
next
  case (Cons c s)
  from Cons.prems obtain e es' where e: "escape_char c = Inr e"
    and es': "escape_string s = Inr es'" and es: "es = e @ es'"
    by (auto split: sum.splits)
  from Cons.IH [OF es'] scan_string_escape_char [OF e, of "es' @ CHR 0x22 # r"]
  show ?case
    by (simp add: es cons_result_def)
qed

lemma scan_string_encode_string:
  "encode_string s = Inr q \<Longrightarrow> \<exists>es. q = CHR 0x22 # es \<and> scan_string (es @ r) = Inr (s, r)"
  by (auto simp: encode_string_def scan_string_escape_string split: sum.splits)

subsection \<open>Values\<close>

lemma join_comma_Cons:
  "join_comma (t # ts) @ r = t @ (if ts = [] then r else CHR '','' # join_comma ts @ r)"
  by (cases ts) simp_all

lemma skip_ws_Cons: "\<not> is_ws c \<Longrightarrow> skip_ws (c # r) = c # r"
  by (simp add: skip_ws_def)

lemma marshal_members_keys: "marshal_members kvs = Inr texts \<Longrightarrow> map fst texts = map fst kvs"
  by (induction kvs arbitrary: texts) (auto split: sum.splits)

lemma marshal_items_Nil: "marshal_items vs = Inr [] \<Longrightarrow> vs = []"
  by (cases vs) (auto split: sum.splits)

lemma sequence_members_Nil: "sequence (map encode_member texts) = Inr [] \<Longrightarrow> texts = []"
  by (cases texts) (auto split: sum.splits)

lemma marshal_members_Nil: "marshal_members kvs = Inr [] \<Longrightarrow> kvs = []"
  by (cases kvs) (auto split: sum.splits)

lemma itoa_nat_hd_digit: "\<exists>c r. itoa_nat n = c # r \<and> is_digit c"
  using itoa_nat_digits [of n] itoa_nat_not_Nil [of n] by (cases "itoa_nat n") auto

lemma json_Marshal_hd:
  assumes "json_Marshal v = Inr s"
  shows "\<exists>c r. s = c # r \<and> \<not> is_ws c \<and> c \<noteq> CHR '']'' \<and> c \<noteq> CHR ''}''"
proof (cases v)
  case (GFloat64 x)
  with assms have "s = itoa \<lfloor>x\<rfloor>"
    by (auto simp: format_float_def split: if_splits)
  then show ?thesis
    using itoa_nat_hd_digit [of "nat \<lfloor>x\<rfloor>"]
    by (auto simp: itoa_def is_ws_def is_digit_def)
next
  case (GInt i)
  with assms have "s = itoa i"
    by simp
  then show ?thesis
    using itoa_nat_hd_digit [of "nat i"]
    by (auto simp: itoa_def is_ws_def is_digit_def)
qed (use assms in \<open>auto simp: is_ws_def encode_string_def split: sum.splits if_splits\<close>)

text \<open>
  The decoder reads a value back from the text that the encoder wrote for it, whatever
  follows the value in an array or an object. The three statements are those of the three
  functions of the encoder.
\<close>

lemma parse_value_leaf:
  assumes "json_Marshal v = Inr s" and "value_end rest"
    and "v = GNil \<or> (\<exists>b. v = GBool b) \<or> (\<exists>r. v = GFloat64 r) \<or> (\<exists>str. v = GString str)"
  shows "parse_value d (s @ rest) = Inr (v, rest)"
proof -
  from json_Marshal_hd [OF assms(1)] obtain c r where s: "s = c # r" and c: "\<not> is_ws c"
    by blast
  have sk: "skip_ws (s @ rest) = c # r @ rest"
    by (simp add: s skip_ws_Cons [OF c])
  from assms(3) consider "v = GNil" | b where "v = GBool b" | x where "v = GFloat64 x"
    | str where "v = GString str"
    by blast
  then show ?thesis
  proof cases
    case 1
    with assms(1) show ?thesis
      by (subst parse_value.simps) (auto simp: skip_ws_def is_ws_def scan_literal_def)
  next
    case 2
    with assms(1) show ?thesis
      by (subst parse_value.simps) (auto simp: skip_ws_def is_ws_def scan_literal_def)
  next
    case 3
    with assms(1) have f: "format_float x = Inr s"
      by simp
    then have "s = itoa \<lfloor>x\<rfloor>"
      by (auto simp: format_float_def split: if_splits)
    with s itoa_nat_hd_digit [of "nat \<lfloor>x\<rfloor>"] itoa_nat_hd_digit [of "nat (- \<lfloor>x\<rfloor>)"]
    have "c = CHR ''-'' \<or> is_digit c"
      by (auto simp: itoa_def split: if_splits)
    then have nc: "c \<noteq> CHR ''{''" "c \<noteq> CHR ''[''" "c \<noteq> CHR 0x22" "c \<noteq> CHR ''t''"
      "c \<noteq> CHR ''f''" "c \<noteq> CHR ''n''"
      by (auto simp: is_digit_def)
    from scan_number_format_float [OF f assms(2)] nc show ?thesis
      by (subst parse_value.simps) (simp add: s 3 skip_ws_Cons [OF c])
  next
    case 4
    with assms(1) have "encode_string str = Inr s"
      by simp
    from scan_string_encode_string [OF this, of rest] s
    have "c = CHR 0x22" and "scan_string (r @ rest) = Inr (str, rest)"
      by auto
    then show ?thesis
      by (subst parse_value.simps) (simp add: s 4 skip_ws_def is_ws_def)
  qed
qed

lemma parse_elements_step:
  assumes v: "parse_value d (t @ cont) = Inr (v, cont)"
    and cont: "cont = (if ts = [] then CHR '']'' # rest else CHR '','' # join_comma ts @ CHR '']'' # rest)"
    and vs: "ts \<noteq> [] \<Longrightarrow>
          parse_elements d (acc @ [v]) (join_comma ts @ CHR '']'' # rest) = Inr (GSlice ((acc @ [v]) @ vs), rest)"
    and e: "ts = [] \<Longrightarrow> vs = []"
  shows "parse_elements d acc (join_comma (t # ts) @ CHR '']'' # rest) = Inr (GSlice (acc @ v # vs), rest)"
proof -
  have j: "join_comma (t # ts) @ CHR '']'' # rest = t @ cont"
    by (simp add: join_comma_Cons cont)
  have sk: "skip_ws cont = cont"
    by (simp add: cont skip_ws_def is_ws_def)
  show ?thesis
    unfolding j
    by (subst parse_elements_plain) (use vs e in \<open>simp add: v sk, simp add: cont\<close>)
qed

lemma parse_members_step:
  assumes k: "encode_string k = Inr ks"
    and v: "parse_value d (t @ cont) = Inr (v, cont)"
    and cont: "cont = (if ms = [] then CHR ''}'' # rest else CHR '','' # join_comma ms @ CHR ''}'' # rest)"
    and acc: "\<forall>k' \<in> set (map fst acc). str_less k' k"
    and kvs: "ms \<noteq> [] \<Longrightarrow>
          parse_members d (acc @ [(k, v)]) (join_comma ms @ CHR ''}'' # rest) =
            Inr (GMap ((acc @ [(k, v)]) @ kvs), rest)"
    and e: "ms = [] \<Longrightarrow> kvs = []"
  shows "parse_members d acc (join_comma ((ks @ CHR '':'' # t) # ms) @ CHR ''}'' # rest) =
           Inr (GMap (acc @ (k, v) # kvs), rest)"
proof -
  from scan_string_encode_string [OF k, of "CHR '':'' # t @ cont"] obtain es
    where ks: "ks = CHR 0x22 # es"
      and es: "scan_string (es @ CHR '':'' # t @ cont) = Inr (k, CHR '':'' # t @ cont)"
    by blast
  have j: "join_comma ((ks @ CHR '':'' # t) # ms) @ CHR ''}'' # rest =
             CHR 0x22 # es @ CHR '':'' # t @ cont"
    by (simp add: join_comma_Cons cont ks)
  have sk: "skip_ws cont = cont"
    by (simp add: cont skip_ws_def is_ws_def)
  have sk0: "skip_ws (CHR 0x22 # es @ CHR '':'' # t @ cont) = CHR 0x22 # es @ CHR '':'' # t @ cont"
    "skip_ws (CHR '':'' # t @ cont) = CHR '':'' # t @ cont"
    by (simp_all add: skip_ws_def is_ws_def)
  show ?thesis
    unfolding j
    by (subst parse_members_plain)
       (use kvs e in \<open>simp add: sk0 es v sk map_set_last [OF acc],
          simp add: cont map_set_last [OF acc]\<close>)
qed

lemma parse_marshal:
  "well_formed v \<Longrightarrow> d + nesting v \<le> max_depth \<Longrightarrow> json_Marshal v = Inr s \<Longrightarrow>
     value_end rest \<Longrightarrow> parse_value d (s @ rest) = Inr (v, rest)"
  "kvs \<noteq> [] \<Longrightarrow> well_formed_members kvs \<Longrightarrow> sorted_wrt str_less (map fst (acc @ kvs)) \<Longrightarrow>
     d + nesting_members kvs \<le> max_depth \<Longrightarrow> marshal_members kvs = Inr texts \<Longrightarrow>
     sequence (map encode_member texts) = Inr ms \<Longrightarrow>
     parse_members d acc (join_comma ms @ CHR ''}'' # rest) = Inr (GMap (acc @ kvs), rest)"
  "items \<noteq> [] \<Longrightarrow> well_formed_items items \<Longrightarrow> d + nesting_items items \<le> max_depth \<Longrightarrow>
     marshal_items items = Inr ts \<Longrightarrow>
     parse_elements d acc' (join_comma ts @ CHR '']'' # rest) = Inr (GSlice (acc' @ items), rest)"
proof (induction v and kvs and items
    arbitrary: d s rest and d acc texts ms rest and d acc' ts rest
    rule: json_Marshal_marshal_members_marshal_items.induct)
  case 1
  then show ?case
    by (intro parse_value_leaf) simp_all
next
  case (2 b)
  then show ?case
    by (intro parse_value_leaf) simp_all
next
  case (3 r)
  then show ?case
    by (intro parse_value_leaf) simp_all
next
  case (4 i)
  then show ?case
    by simp
next
  case (5 str)
  then show ?case
    by (intro parse_value_leaf) simp_all
next
  case (6 items)
  from "6.prems" have d: "\<not> max_depth \<le> d" and d': "Suc d + nesting_items items \<le> max_depth"
    and wf: "well_formed_items items"
    by simp_all
  from "6.prems"(3) obtain ts where ts: "marshal_items items = Inr ts"
    and s: "s = CHR ''['' # join_comma ts @ '']''"
    by (auto split: sum.splits)
  show ?case
  proof (cases items)
    case Nil
    with ts s d show ?thesis
      by (subst parse_value.simps) (auto simp: skip_ws_def is_ws_def)
  next
    case (Cons v vs)
    with ts obtain t ts' where t: "json_Marshal v = Inr t" and ts': "ts = t # ts'"
      by (auto split: sum.splits)
    from json_Marshal_hd [OF t] obtain c r where c: "t = c # r" "\<not> is_ws c" "c \<noteq> CHR '']''"
      by blast
    have e: "join_comma ts @ CHR '']'' # rest =
               c # r @ (if ts' = [] then CHR '']'' # rest
                        else CHR '','' # join_comma ts' @ CHR '']'' # rest)"
      by (simp add: ts' join_comma_Cons c(1))
    from Cons have "items \<noteq> []"
      by simp
    from "6.IH" [OF this wf d' ts, of "[]" rest]
    have p: "parse_elements (Suc d) [] (join_comma ts @ CHR '']'' # rest) =
               Inr (GSlice items, rest)"
      by simp
    show ?thesis
      by (subst parse_value.simps)
         (use d c p in \<open>simp add: s skip_ws_def is_ws_def, simp add: e is_ws_def\<close>)
  qed
next
  case (7 kvs)
  from "7.prems" have d: "\<not> max_depth \<le> d" and d': "Suc d + nesting_members kvs \<le> max_depth"
    and wf: "well_formed_members kvs" and so: "sorted_wrt str_less (map fst kvs)"
    by simp_all
  from "7.prems"(3) obtain texts ms where texts: "marshal_members kvs = Inr texts"
    and ms: "sequence (map encode_member (sorted_keys texts)) = Inr ms"
    and s: "s = CHR ''{'' # join_comma ms @ ''}''"
    by (auto split: sum.splits)
  from so marshal_members_keys [OF texts] have "sorted_keys texts = texts"
    by (simp add: sorted_keys_id)
  with ms have ms': "sequence (map encode_member texts) = Inr ms"
    by simp
  show ?case
  proof (cases kvs)
    case Nil
    with texts ms' s d show ?thesis
      by (subst parse_value.simps) (auto simp: skip_ws_def is_ws_def)
  next
    case (Cons a kvs')
    with texts obtain k t texts' where texts': "texts = (k, t) # texts'"
      by (cases a) (auto split: sum.splits)
    with ms' obtain ks ms'' where ks: "encode_string k = Inr ks"
      and ms'': "ms = (ks @ CHR '':'' # t) # ms''"
      by (auto split: sum.splits)
    from ks obtain es where es: "ks = CHR 0x22 # es"
      by (auto simp: encode_string_def split: sum.splits)
    have e: "join_comma ms @ CHR ''}'' # rest =
               CHR 0x22 # (es @ CHR '':'' # t) @
                 (if ms'' = [] then CHR ''}'' # rest
                  else CHR '','' # join_comma ms'' @ CHR ''}'' # rest)"
      by (simp add: ms'' join_comma_Cons es)
    from Cons have "kvs \<noteq> []"
      by simp
    from "7.IH" [OF this wf _ d' texts ms', of "[]" rest] so
    have p: "parse_members (Suc d) [] (join_comma ms @ CHR ''}'' # rest) =
               Inr (GMap kvs, rest)"
      by simp
    show ?thesis
      by (subst parse_value.simps)
         (use d p in \<open>simp add: s skip_ws_def is_ws_def, simp add: e is_ws_def\<close>)
  qed
next
  case 8
  then show ?case
    by simp
next
  case (9 k v kvs)
  from "9.prems" have wfv: "well_formed v" and wf: "well_formed_members kvs"
    and dv: "d + nesting v \<le> max_depth" and dk: "d + nesting_members kvs \<le> max_depth"
    by simp_all
  from "9.prems"(5) obtain t texts' where t: "json_Marshal v = Inr t"
    and texts': "marshal_members kvs = Inr texts'" and texts: "texts = (k, t) # texts'"
    by (auto split: sum.splits)
  from "9.prems"(6) texts obtain ks ms' where ks: "encode_string k = Inr ks"
    and ms': "sequence (map encode_member texts') = Inr ms'"
    and ms: "ms = (ks @ CHR '':'' # t) # ms'"
    by (auto split: sum.splits)
  define cont where
    "cont = (if ms' = [] then CHR ''}'' # rest else CHR '','' # join_comma ms' @ CHR ''}'' # rest)"
  have ve: "value_end cont"
    by (simp add: cont_def value_end_def)
  from "9.prems"(3) have acc: "\<forall>k' \<in> set (map fst acc). str_less k' k"
    and so: "sorted_wrt str_less (map fst ((acc @ [(k, v)]) @ kvs))"
    by (simp_all add: sorted_wrt_append)
  have pv: "parse_value d (t @ cont) = Inr (v, cont)"
    by (rule "9.IH"(1) [OF wfv dv t ve])
  have e: "ms' = [] \<Longrightarrow> kvs = []"
    using sequence_members_Nil [of texts'] marshal_members_Nil [of kvs] ms' texts'
    by simp
  have pk: "parse_members d (acc @ [(k, v)]) (join_comma ms' @ CHR ''}'' # rest) =
              Inr (GMap ((acc @ [(k, v)]) @ kvs), rest)" if "ms' \<noteq> []"
  proof -
    from that ms' have "texts' \<noteq> []"
      by auto
    with texts' have "kvs \<noteq> []"
      by auto
    from "9.IH"(2) [OF t this wf so dk texts' ms'] show ?thesis .
  qed
  from parse_members_step [OF ks pv cont_def acc pk e] show ?case
    by (simp add: ms)
next
  case 10
  then show ?case
    by simp
next
  case (11 v vs)
  from "11.prems" have wfv: "well_formed v" and wf: "well_formed_items vs"
    and dv: "d + nesting v \<le> max_depth" and dk: "d + nesting_items vs \<le> max_depth"
    by simp_all
  from "11.prems"(4) obtain t ts' where t: "json_Marshal v = Inr t"
    and ts': "marshal_items vs = Inr ts'" and ts: "ts = t # ts'"
    by (auto split: sum.splits)
  define cont where
    "cont = (if ts' = [] then CHR '']'' # rest else CHR '','' # join_comma ts' @ CHR '']'' # rest)"
  have ve: "value_end cont"
    by (simp add: cont_def value_end_def)
  have pv: "parse_value d (t @ cont) = Inr (v, cont)"
    by (rule "11.IH"(1) [OF wfv dv t ve])
  have e: "ts' = [] \<Longrightarrow> vs = []"
    using marshal_items_Nil [of vs] ts' by simp
  have pk: "parse_elements d (acc' @ [v]) (join_comma ts' @ CHR '']'' # rest) =
              Inr (GSlice ((acc' @ [v]) @ vs), rest)" if "ts' \<noteq> []"
  proof -
    from that ts' have "vs \<noteq> []"
      by auto
    from "11.IH"(2) [OF t this wf dk ts'] show ?thesis .
  qed
  from parse_elements_step [OF pv cont_def pk e] show ?case
    by (simp add: ts)
qed

lemma json_round_trip:
  assumes "well_formed v" and "nesting v \<le> max_depth" and "json_Marshal v = Inr s"
  shows "json_Unmarshal s = Inr v"
proof -
  have "parse_value 0 (s @ []) = Inr (v, [])"
    by (rule parse_marshal(1)) (use assms in \<open>simp_all add: value_end_def\<close>)
  then show ?thesis
    by (simp add: json_Unmarshal_def skip_ws_def)
qed

subsection \<open>What the decoder produces\<close>

lemma str_less_trans: "str_less x y \<Longrightarrow> str_less y z \<Longrightarrow> str_less x z"
proof (induction x y arbitrary: z rule: str_less.induct)
  case 1
  then show ?case by simp
next
  case (2 y ys)
  then show ?case by (cases z) simp_all
next
  case (3 x xs)
  then show ?case by simp
next
  case (4 x xs y ys)
  then show ?case
    by (cases z) (auto split: if_splits)
qed

lemma str_less_total: "x \<noteq> y \<Longrightarrow> \<not> str_less x y \<Longrightarrow> str_less y x"
proof (induction x y rule: str_less.induct)
  case (4 x xs y ys)
  then show ?case
    by (auto split: if_splits simp: not_less)
qed simp_all

lemma map_set_keys: "fst ` set (map_set k v kvs) = insert k (fst ` set kvs)"
proof (induction kvs)
  case Nil
  then show ?case by simp
next
  case (Cons a kvs)
  obtain k' v' where a: "a = (k', v')"
    by (cases a)
  with Cons show ?case
    by (simp add: insert_commute)
qed

lemma map_set_sorted:
  "sorted_wrt str_less (map fst kvs) \<Longrightarrow> sorted_wrt str_less (map fst (map_set k v kvs))"
proof (induction kvs)
  case Nil
  then show ?case by simp
next
  case (Cons a kvs)
  obtain k' v' where a: "a = (k', v')"
    by (cases a)
  show ?case
  proof (cases "k = k'")
    case True
    with Cons.prems a show ?thesis
      by simp
  next
    case ne: False
    show ?thesis
    proof (cases "str_less k k'")
      case True
      with Cons.prems a ne show ?thesis
        by (auto intro: str_less_trans)
    next
      case False
      with ne have "str_less k' k"
        by (simp add: str_less_total)
      with Cons a ne False show ?thesis
        by (auto simp: map_set_keys)
    qed
  qed
qed

lemma map_set_well_formed:
  "well_formed v \<Longrightarrow> well_formed_members kvs \<Longrightarrow> well_formed_members (map_set k v kvs)"
  by (induction kvs) auto

lemma map_set_nesting:
  "nesting_members (map_set k v kvs) \<le> max (nesting v) (nesting_members kvs)"
  by (induction kvs) auto

lemma well_formed_items_snoc:
  "well_formed_items (xs @ [v]) = (well_formed_items xs \<and> well_formed v)"
  by (induction xs) auto

lemma nesting_items_snoc: "nesting_items (xs @ [v]) = max (nesting_items xs) (nesting v)"
  by (induction xs) auto

lemma scan_number_value: "scan_number s = Inr (v, r) \<Longrightarrow> \<exists>x. v = GFloat64 x"
  by (auto simp: scan_number_def Let_def split: if_splits)

lemma scan_literal_value: "scan_literal lit x s = Inr (v, r) \<Longrightarrow> v = x"
  by (auto simp: scan_literal_def split: if_splits)

lemma parse_decoded:
  "(parse_value d s = Inr (v, r) \<longrightarrow> d \<le> max_depth \<longrightarrow>
      well_formed v \<and> d + nesting v \<le> max_depth) \<and>
   (parse_elements d acc s = Inr (v, r) \<longrightarrow> d \<le> max_depth \<longrightarrow> well_formed_items acc \<longrightarrow>
      d + nesting_items acc \<le> max_depth \<longrightarrow>
      well_formed v \<and> d + nesting v \<le> Suc max_depth) \<and>
   (parse_members d acc' s = Inr (v, r) \<longrightarrow> d \<le> max_depth \<longrightarrow> well_formed (GMap acc') \<longrightarrow>
      d + nesting_members acc' \<le> max_depth \<longrightarrow>
      well_formed v \<and> d + nesting v \<le> Suc max_depth)"
proof (induction "length s" arbitrary: s d acc acc' v r rule: less_induct)
  case less
  have IHv: "well_formed v \<and> d + nesting v \<le> max_depth"
    if "length s' < length s" "parse_value d s' = Inr (v, r)" "d \<le> max_depth" for s' d v r
    using less [of s' d v r] that by blast
  have IHe: "well_formed v \<and> d + nesting v \<le> Suc max_depth"
    if "length s' < length s" "parse_elements d acc s' = Inr (v, r)" "d \<le> max_depth"
      "well_formed_items acc" "d + nesting_items acc \<le> max_depth" for s' d acc v r
    using less [of s' d v r acc] that by blast
  have IHm: "well_formed v \<and> d + nesting v \<le> Suc max_depth"
    if "length s' < length s" "parse_members d acc s' = Inr (v, r)" "d \<le> max_depth"
      "well_formed (GMap acc)" "d + nesting_members acc \<le> max_depth" for s' d acc v r
    using less [of s' d v r _ acc] that by blast
  have V: "well_formed v \<and> d + nesting v \<le> max_depth"
    if p: "parse_value d s = Inr (v, r)" and d: "d \<le> max_depth" for d v r
  proof -
    note p' = p [unfolded parse_value.simps [of d s]]
    from p' obtain c r0 where sk: "skip_ws s = c # r0"
      by (auto split: list.splits)
    then have l0: "length r0 < length s"
      by (rule skip_ws_Cons_less)
    show ?thesis
    proof (cases "c = CHR ''{'' \<or> c = CHR ''[''")
      case False
      with p' sk have "well_formed v \<and> nesting v = 0"
        by (auto split: if_splits sum.splits prod.splits
            dest!: scan_number_value scan_literal_value)
      with d show ?thesis
        by simp
    next
      case True
      with p' sk obtain c' r' where sk': "skip_ws r0 = c' # r'" and dd: "d < max_depth"
        by (auto split: list.splits if_splits)
      then have l1: "length r' < length r0"
        using skip_ws_Cons_less by blast
      from True p' sk sk' have
        "v = GMap [] \<or> v = GSlice [] \<or> parse_members (Suc d) [] (c' # r') = Inr (v, r) \<or>
         parse_elements (Suc d) [] (c' # r') = Inr (v, r)"
        by (auto split: if_splits)
      moreover have l: "length (c' # r') < length s"
        using l0 l1 by simp
      moreover note IHm [OF l, of "Suc d" "[]" v r] IHe [OF l, of "Suc d" "[]" v r]
      ultimately show ?thesis
        using dd by auto
    qed
  qed
  have E: "well_formed v \<and> d + nesting v \<le> Suc max_depth"
    if p: "parse_elements d acc s = Inr (v, r)" and d: "d \<le> max_depth"
      and w: "well_formed_items acc" and n: "d + nesting_items acc \<le> max_depth"
  proof -
    from p [unfolded parse_elements.simps [of d acc s]]
    obtain v1 r1 c r' where pv: "parse_value d s = Inr (v1, r1)"
      and g: "length r1 < length s" and sk: "skip_ws r1 = c # r'"
      and alt: "parse_elements d (acc @ [v1]) r' = Inr (v, r) \<or> v = GSlice (acc @ [v1])"
      by (auto split: sum.splits prod.splits if_splits list.splits)
    from sk have l: "length r' < length r1"
      by (rule skip_ws_Cons_less)
    from V [OF pv d] have v1: "well_formed v1" "d + nesting v1 \<le> max_depth"
      by simp_all
    with w n have acc: "well_formed_items (acc @ [v1])"
      "d + nesting_items (acc @ [v1]) \<le> max_depth"
      by (simp_all add: well_formed_items_snoc nesting_items_snoc)
    from alt show ?thesis
    proof
      assume "parse_elements d (acc @ [v1]) r' = Inr (v, r)"
      then show ?thesis
        using IHe [of r' d "acc @ [v1]" v r] g l d acc by simp
    next
      assume "v = GSlice (acc @ [v1])"
      with acc show ?thesis
        by simp
    qed
  qed
  have M: "well_formed v \<and> d + nesting v \<le> Suc max_depth"
    if p: "parse_members d acc' s = Inr (v, r)" and d: "d \<le> max_depth"
      and w: "well_formed (GMap acc')" and n: "d + nesting_members acc' \<le> max_depth"
  proof -
    from p [unfolded parse_members.simps [of d acc' s]]
    obtain r0 key r1 r2 v1 r3 c3 r4 where sk: "skip_ws s = CHR 0x22 # r0"
      and ss: "scan_string r0 = Inr (key, r1)" and sk1: "skip_ws r1 = CHR '':'' # r2"
      and pv: "parse_value d r2 = Inr (v1, r3)" and sk3: "skip_ws r3 = c3 # r4"
      and g: "length r3 < length r2"
      and alt: "parse_members d (map_set key v1 acc') r4 = Inr (v, r) \<or>
                v = GMap (map_set key v1 acc')"
      by (auto split: sum.splits prod.splits if_splits list.splits)
    have l2: "length r2 < length s"
      using skip_ws_Cons_less [OF sk] scan_string_shorter [OF ss] skip_ws_Cons_less [OF sk1]
      by simp
    have l4: "length r4 < length s"
      using l2 g skip_ws_Cons_less [OF sk3] by simp
    from IHv [OF l2 pv d] have v1: "well_formed v1" "d + nesting v1 \<le> max_depth"
      by simp_all
    from w v1(1) have acc1: "well_formed (GMap (map_set key v1 acc'))"
      by (simp add: map_set_sorted map_set_well_formed)
    have acc2: "d + nesting_members (map_set key v1 acc') \<le> max_depth"
      using map_set_nesting [of key v1 acc'] v1(2) n by simp
    from alt show ?thesis
    proof
      assume "parse_members d (map_set key v1 acc') r4 = Inr (v, r)"
      then show ?thesis
        using IHm [OF l4 _ d acc1 acc2] by simp
    next
      assume "v = GMap (map_set key v1 acc')"
      with acc1 acc2 show ?thesis
        by simp
    qed
  qed
  from V E M show ?case
    by blast
qed

lemma json_Unmarshal_decoded:
  assumes "json_Unmarshal s = Inr v"
  shows "well_formed v \<and> nesting v \<le> max_depth"
proof -
  from assms obtain r where "parse_value 0 s = Inr (v, r)"
    by (auto simp: json_Unmarshal_def split: sum.splits prod.splits if_splits)
  with parse_decoded [of 0 s v r] show ?thesis
    by simp
qed

subsection \<open>Removing the default fields from a decoded value\<close>

lemma removeDefaultFields_map_keys:
  "(k, v) \<in> set (removeDefaultFields_map kvs) \<Longrightarrow> k \<in> fst ` set kvs"
  by (induction kvs) (auto split: if_splits)

lemma removeDefaultFields_map_sorted:
  "sorted_wrt str_less (map fst kvs) \<Longrightarrow>
   sorted_wrt str_less (map fst (removeDefaultFields_map kvs))"
proof (induction kvs)
  case Nil
  then show ?case by simp
next
  case (Cons a kvs)
  obtain k v where a: "a = (k, v)"
    by (cases a)
  have "str_less k k'" if "(k', v') \<in> set (removeDefaultFields_map kvs)" for k' v'
    using removeDefaultFields_map_keys [OF that] Cons.prems a by auto
  with Cons a show ?case
    by auto
qed

lemma removeDefaultFields_well_formed:
  "well_formed v \<Longrightarrow> well_formed (removeDefaultFields v)"
  "well_formed_members kvs \<Longrightarrow> well_formed_members (removeDefaultFields_map kvs)"
  "well_formed_items items \<Longrightarrow> well_formed_items (removeDefaultFields_slice items)"
  by (induction v and kvs and items
      rule: removeDefaultFields_removeDefaultFields_map_removeDefaultFields_slice.induct)
     (simp_all add: removeDefaultFields_map_sorted)

lemma removeDefaultFields_nesting:
  "nesting (removeDefaultFields v) \<le> nesting v"
  "nesting_members (removeDefaultFields_map kvs) \<le> nesting_members kvs"
  "nesting_items (removeDefaultFields_slice items) \<le> nesting_items items"
proof (induction v and kvs and items
    rule: removeDefaultFields_removeDefaultFields_map_removeDefaultFields_slice.induct)
  case (9 key v kvs)
  then show ?case
    by (cases "isDefaultField key v") (auto simp: max_def)
qed (auto simp: max_def)

lemma normalized_text_reads_back:
  assumes "json_Unmarshal t = Inr v" and "json_Marshal (removeDefaultFields v) = Inr s"
  shows "json_Unmarshal s = Inr (removeDefaultFields v)"
proof (rule json_round_trip)
  from json_Unmarshal_decoded [OF assms(1)]
  show "well_formed (removeDefaultFields v)" "nesting (removeDefaultFields v) \<le> max_depth"
    using removeDefaultFields_nesting(1) [of v]
    by (simp_all add: removeDefaultFields_well_formed)
qed (rule assms(2))

section \<open>The canonicalizer is idempotent\<close>

lemma removeDefaultFields_slice_length:
  "length (removeDefaultFields_slice items) = length items"
  by (induction items) simp_all

lemma isDefaultField_removeDefaultFields:
  "isDefaultField key (removeDefaultFields v) = isDefaultField key v"
  by (cases v) (simp_all add: isDefaultField_def removeDefaultFields_slice_length)

lemma removeDefaultFields_idem:
  "removeDefaultFields (removeDefaultFields v) = removeDefaultFields v"
  "removeDefaultFields_map (removeDefaultFields_map kvs) = removeDefaultFields_map kvs"
  "removeDefaultFields_slice (removeDefaultFields_slice items) = removeDefaultFields_slice items"
  by (induction v and kvs and items
      rule: removeDefaultFields_removeDefaultFields_map_removeDefaultFields_slice.induct)
     (simp_all add: isDefaultField_removeDefaultFields)

text \<open>
  C5. Canonicalization is idempotent. On trees: removing the default fields twice is
  removing them once, for every value. On texts, for any JSON package: when \<open>t\<close> decodes to
  \<open>v\<close>, the canonical tree \<open>removeDefaultFields v\<close> is serialized to \<open>s\<close>, and the decoder reads
  \<open>s\<close> back as that tree, then canonicalizing \<open>s\<close> gives the tree that canonicalizing \<open>t\<close>
  gives, and \<open>normalizeJSON\<close> maps \<open>s\<close> and \<open>t\<close> to the same text \<open>s\<close>. On texts, for the model
  \<open>encoding_json\<close> of the package, which reads back what it wrote: a text that \<open>normalizeJSON\<close>
  returns is mapped to itself by \<open>normalizeJSON\<close>.
\<close>

theorem canonicalization_idempotent:
  "removeDefaultFields (removeDefaultFields w) = removeDefaultFields w \<and>
   (Unmarshal json t = Inr v \<and> Marshal json (removeDefaultFields v) = Inr s \<and>
    Unmarshal json s = Inr (removeDefaultFields v) \<longrightarrow>
      map_sum id removeDefaultFields (Unmarshal json s) =
        map_sum id removeDefaultFields (Unmarshal json t) \<and>
      normalizeJSON json s = Inr s \<and> normalizeJSON json t = Inr s) \<and>
   (normalizeJSON encoding_json t' = Inr s' \<longrightarrow> normalizeJSON encoding_json s' = Inr s')"
proof -
  have "normalizeJSON encoding_json s' = Inr s'" if n: "normalizeJSON encoding_json t' = Inr s'"
  proof -
    from n obtain v' where u: "json_Unmarshal t' = Inr v'"
      and m: "json_Marshal (removeDefaultFields v') = Inr s'"
      by (auto simp: normalizeJSON_def encoding_json_def split: sum.splits)
    from normalized_text_reads_back [OF u m] m show ?thesis
      by (simp add: normalizeJSON_def encoding_json_def removeDefaultFields_idem)
  qed
  then show ?thesis
    by (simp add: removeDefaultFields_idem normalizeJSON_def)
qed

theorem canonicalization_idempotent_witness:
  \<open>Unmarshal encoding_json ''{"absentFor":0,"alertOnAbsent":false,"a":1}'' =
     Inr (GMap [(''a'', GFloat64 1), (''absentFor'', GFloat64 0),
                (''alertOnAbsent'', GBool False)]) \<and>
   normalizeJSON encoding_json ''{"absentFor":0,"alertOnAbsent":false,"a":1}'' =
     Inr ''{"a":1,"absentFor":0}'' \<and>
   normalizeJSON encoding_json ''{"a":1,"absentFor":0}'' = Inr ''{"a":1,"absentFor":0}''\<close>
proof -
  let ?t = \<open>''{"absentFor":0,"alertOnAbsent":false,"a":1}''\<close>
  let ?v = "GMap [(''a'', GFloat64 1), (''absentFor'', GFloat64 0),
                  (''alertOnAbsent'', GBool False)]"
  let ?s = \<open>''{"a":1,"absentFor":0}''\<close>
  have rv: "removeDefaultFields ?v = GMap [(''a'', GFloat64 1), (''absentFor'', GFloat64 0)]"
    by (simp add: isDefaultField_def)
  have h1: "Unmarshal encoding_json ?t = Inr ?v"
    by (rule unmarshal_absent)
  have h2: "Marshal encoding_json (removeDefaultFields ?v) = Inr ?s"
    by (simp only: rv marshal_a1_absent)
  have h3: "Unmarshal encoding_json ?s = Inr (removeDefaultFields ?v)"
    unfolding rv by (simp add: json_eval)
  have h4: "normalizeJSON encoding_json ?t = Inr ?s"
    using h1 h2 by (simp add: normalizeJSON_def)
  from canonicalization_idempotent [of _ encoding_json ?t ?v ?s ?t ?s] h1 h2 h3 h4
  have "normalizeJSON encoding_json ?s = Inr ?s \<and> normalizeJSON encoding_json ?t = Inr ?s"
    by blast
  with h1 show ?thesis by blast
qed

section \<open>The comparator as a relation\<close>

text \<open>
  C4, as stated, fails: the comparator is not reflexive on all texts. The text \<^verbatim>\<open>{\<close> does not
  decode, so it is not equivalent to itself.
\<close>

theorem comparator_reflexive_counterexample:
  \<open>areJSONsSemanticallyEqual encoding_json ''{'' ''{'' = False\<close>
  by (simp add: areJSONsSemanticallyEqual_def unmarshal_brace)

text \<open>
  C4, amended. Whatever the decoder and the encoder are, the comparator is symmetric and
  transitive on all texts, and a text is equivalent to itself exactly when it decodes and
  its canonical tree encodes: it is an equivalence relation on those texts.
\<close>

theorem comparator_partial_equivalence:
  "(areJSONsSemanticallyEqual json a b = areJSONsSemanticallyEqual json b a) \<and>
   (areJSONsSemanticallyEqual json a b \<and> areJSONsSemanticallyEqual json b c
      \<longrightarrow> areJSONsSemanticallyEqual json a c) \<and>
   (areJSONsSemanticallyEqual json a a =
      (\<not> isl (Unmarshal json a) \<and>
       \<not> isl (Marshal json (removeDefaultFields (projr (Unmarshal json a))))))"
  by (auto simp: areJSONsSemanticallyEqual_def split: sum.splits)

theorem comparator_partial_equivalence_witness:
  \<open>areJSONsSemanticallyEqual encoding_json ''{"a":1}'' ''{ "a" : 1 }'' \<and>
   areJSONsSemanticallyEqual encoding_json ''{ "a" : 1 }'' ''{"hidden":true,"a":1}'' \<and>
   areJSONsSemanticallyEqual encoding_json ''{"a":1}'' ''{"hidden":true,"a":1}'' \<and>
   areJSONsSemanticallyEqual encoding_json ''{ "a" : 1 }'' ''{"a":1}'' \<and>
   areJSONsSemanticallyEqual encoding_json ''{"a":1}'' ''{"a":1}''\<close>
proof -
  let ?a = \<open>''{"a":1}''\<close>
  let ?b = \<open>''{ "a" : 1 }''\<close>
  let ?c = \<open>''{"hidden":true,"a":1}''\<close>
  have ub: "Unmarshal encoding_json ?b = Inr (GMap [(''a'', GFloat64 1)])"
    by (simp add: json_eval)
  have uc: "Unmarshal encoding_json ?c =
              Inr (GMap [(''a'', GFloat64 1), (''hidden'', GBool True)])"
    by (simp add: json_eval)
  have ab: "areJSONsSemanticallyEqual encoding_json ?a ?b"
    by (simp add: areJSONsSemanticallyEqual_def unmarshal_a1 ub marshal_a1 isDefaultField_def)
  have bc: "areJSONsSemanticallyEqual encoding_json ?b ?c"
    by (simp add: areJSONsSemanticallyEqual_def ub uc marshal_a1 isDefaultField_def)
  have da: "\<not> isl (Unmarshal encoding_json ?a)"
    by (simp add: unmarshal_a1)
  have ea: "\<not> isl (Marshal encoding_json
                    (removeDefaultFields (projr (Unmarshal encoding_json ?a))))"
    by (simp add: unmarshal_a1 marshal_a1 isDefaultField_def)
  note pe = comparator_partial_equivalence [of encoding_json ?a ?b ?c]
  from pe ab bc have ac: "areJSONsSemanticallyEqual encoding_json ?a ?c"
    by blast
  from pe ab have ba: "areJSONsSemanticallyEqual encoding_json ?b ?a"
    by blast
  from pe da ea have aa: "areJSONsSemanticallyEqual encoding_json ?a ?a"
    by blast
  from ab bc ac ba aa show ?thesis
    by blast
qed

text \<open>
  C8. Parse failure yields inequivalence, never an exception: whatever the decoder and the
  encoder are, if one of the two texts fails to decode, \<open>areJSONsSemanticallyEqual\<close>
  answers \<open>False\<close>. The comparator is a total function into \<open>bool\<close>: no error leaves it.
\<close>

theorem comparator_parse_failure:
  "isl (Unmarshal json json1) \<or> isl (Unmarshal json json2) \<Longrightarrow>
     areJSONsSemanticallyEqual json json1 json2 = False"
  by (auto simp: areJSONsSemanticallyEqual_def isl_def split: sum.splits)

theorem comparator_parse_failure_witness:
  \<open>(isl (Unmarshal encoding_json ''{'') \<or> isl (Unmarshal encoding_json ''{"a":1}'')) \<and>
   areJSONsSemanticallyEqual encoding_json ''{'' ''{"a":1}'' = False \<and>
   areJSONsSemanticallyEqual encoding_json ''{"a":1}'' ''{'' = False\<close>
proof -
  have h: \<open>isl (Unmarshal encoding_json ''{'')\<close>
    by (simp add: json_eval)
  show ?thesis
    using h comparator_parse_failure [of encoding_json \<open>''{''\<close> \<open>''{"a":1}''\<close>]
      comparator_parse_failure [of encoding_json \<open>''{"a":1}''\<close> \<open>''{''\<close>]
    by simp
qed

section \<open>The Update transition\<close>

text \<open>
  C1, as stated, fails: the rule does not hold for every structured field. The Update of a
  dashboard never consults the comparator. With the desired widgets \<^verbatim>\<open>[ ]\<close> and the previous
  widgets \<^verbatim>\<open>[]\<close>, which the comparator finds equivalent, the next state holds the desired
  text, not the previous one.
\<close>

theorem dashboard_merge_counterexample:
  \<open>areJSONsSemanticallyEqual encoding_json ''[ ]'' ''[]'' \<and>
   dm_Widgets dashboard_plan0 = StringValue ''[ ]'' \<and>
   dm_Widgets dashboard_state0 = StringValue ''[]'' \<and>
   map_sum id dm_Widgets
     (dashboard_Update encoding_json remote_ok dashboard_plan0 dashboard_state0) =
     Inr (StringValue ''[ ]'')\<close>
  by (simp add: compare_empty_arrays dashboard_Update_plan0)
     (simp add: dashboard_plan0_def dashboard_state0_def)

text \<open>
  C1, amended. The merge rule is that of the alert's condition, the one structured field
  whose Update consults the comparator: when the Update succeeds, the next condition is the
  previous one if the previous one is present and the comparator finds the desired and the
  previous texts equivalent, and the desired one otherwise. With the desired condition
  \<^verbatim>\<open>{"a":2}\<close> and the previous condition \<^verbatim>\<open>{"a":1}\<close> equivalence fails and the next
  condition is the desired one. The structured fields of a dashboard (widgets, layout, panel
  map, variables) take the desired value in every successful Update.
\<close>

theorem update_merge_rule:
  \<open>(alert_Update json cl plan state = Inr next \<longrightarrow>
      am_Condition next =
        (if \<not> IsNull (am_Condition state) \<and> \<not> IsUnknown (am_Condition state) \<and>
            areJSONsSemanticallyEqual json (ValueString (am_Condition plan))
              (ValueString (am_Condition state))
         then am_Condition state else am_Condition plan)) \<and>
   (alert_Update encoding_json cl plan' state' = Inr next' \<and>
    am_Condition plan' = StringValue ''{"a":2}'' \<and>
    am_Condition state' = StringValue ''{"a":1}'' \<longrightarrow>
      areJSONsSemanticallyEqual encoding_json ''{"a":2}'' ''{"a":1}'' = False \<and>
      am_Condition next' = am_Condition plan') \<and>
   (dashboard_Update json cl dplan dstate = Inr dnext \<longrightarrow>
      dm_Widgets dnext = dm_Widgets dplan \<and> dm_Layout dnext = dm_Layout dplan \<and>
      dm_PanelMap dnext = dm_PanelMap dplan \<and> dm_Variables dnext = dm_Variables dplan)\<close>
proof (intro conjI impI)
  assume "alert_Update json cl plan state = Inr next"
  then show "am_Condition next =
        (if \<not> IsNull (am_Condition state) \<and> \<not> IsUnknown (am_Condition state) \<and>
            areJSONsSemanticallyEqual json (ValueString (am_Condition plan))
              (ValueString (am_Condition state))
         then am_Condition state else am_Condition plan)"
    by (auto simp: alert_Update_def Let_def split: sum.splits option.splits if_splits)
next
  assume h: \<open>alert_Update encoding_json cl plan' state' = Inr next' \<and>
    am_Condition plan' = StringValue ''{"a":2}'' \<and>
    am_Condition state' = StringValue ''{"a":1}''\<close>
  show \<open>areJSONsSemanticallyEqual encoding_json ''{"a":2}'' ''{"a":1}'' = False\<close>
    by (rule compare_a2_a1)
  from h show "am_Condition next' = am_Condition plan'"
    by (auto simp: alert_Update_def Let_def compare_a2_a1
          split: sum.splits option.splits if_splits)
next
  assume "dashboard_Update json cl dplan dstate = Inr dnext"
  then have "dnext = dplan\<lparr>dm_ID := dm_ID dstate,
                    dm_CreatedAt := dm_CreatedAt dstate,
                    dm_CreatedBy := dm_CreatedBy dstate,
                    dm_UpdatedAt := dm_UpdatedAt dstate,
                    dm_UpdatedBy := dm_UpdatedBy dstate,
                    dm_Source := dm_Source dstate\<rparr>"
    by (auto simp: dashboard_Update_def split: sum.splits option.splits)
  then show "dm_Widgets dnext = dm_Widgets dplan" "dm_Layout dnext = dm_Layout dplan"
    "dm_PanelMap dnext = dm_PanelMap dplan" "dm_Variables dnext = dm_Variables dplan"
    by simp_all
qed

theorem update_merge_rule_witness:
  \<open>alert_Update encoding_json remote_ok alert_plan0 alert_state0 =
     Inr (alert_state0\<lparr>am_Condition := StringValue ''{"a":2}''\<rparr>) \<and>
   am_Condition alert_plan0 = StringValue ''{"a":2}'' \<and>
   am_Condition alert_state0 = StringValue ''{"a":1}'' \<and>
   am_Condition (alert_state0\<lparr>am_Condition := StringValue ''{"a":2}''\<rparr>) =
     am_Condition alert_plan0 \<and>
   dashboard_Update encoding_json remote_ok dashboard_plan0 dashboard_state0 =
     Inr (dashboard_state0\<lparr>dm_Widgets := StringValue ''[ ]''\<rparr>) \<and>
   dm_Widgets (dashboard_state0\<lparr>dm_Widgets := StringValue ''[ ]''\<rparr>) =
     dm_Widgets dashboard_plan0\<close>
proof -
  let ?next = \<open>alert_state0\<lparr>am_Condition := StringValue ''{"a":2}''\<rparr>\<close>
  let ?dnext = \<open>dashboard_state0\<lparr>dm_Widgets := StringValue ''[ ]''\<rparr>\<close>
  have p: \<open>am_Condition alert_plan0 = StringValue ''{"a":2}''\<close>
    by (simp add: alert_plan0_def)
  have s: \<open>am_Condition alert_state0 = StringValue ''{"a":1}''\<close>
    by (simp add: alert_state0_def)
  note r = update_merge_rule [where json = encoding_json and cl = remote_ok
      and plan = alert_plan0 and state = alert_state0 and ?next = ?next
      and plan' = alert_plan0 and state' = alert_state0 and next' = ?next
      and dplan = dashboard_plan0 and dstate = dashboard_state0 and dnext = ?dnext]
  from r alert_Update_plan0 p s have c: "am_Condition ?next = am_Condition alert_plan0"
    by blast
  from r dashboard_Update_plan0 have w: "dm_Widgets ?dnext = dm_Widgets dashboard_plan0"
    by blast
  from alert_Update_plan0 dashboard_Update_plan0 p s c w show ?thesis
    by blast
qed

text \<open>
  C9. Frame condition of Update on the server-managed fields: in every successful Update
  the identifier, the creation and update timestamps, the creator, the updater and the
  source of the next state (and, for an alert, its lifecycle state) are those of the
  previous state, whatever the plan holds in these fields.
\<close>

theorem update_keeps_server_managed_fields:
  "(alert_Update json cl plan state = Inr next \<longrightarrow>
      am_ID next = am_ID state \<and> am_CreateAt next = am_CreateAt state \<and>
      am_CreateBy next = am_CreateBy state \<and> am_UpdateAt next = am_UpdateAt state \<and>
      am_UpdateBy next = am_UpdateBy state \<and> am_State next = am_State state \<and>
      am_Source next = am_Source state) \<and>
   (dashboard_Update json cl dplan dstate = Inr dnext \<longrightarrow>
      dm_ID dnext = dm_ID dstate \<and> dm_CreatedAt dnext = dm_CreatedAt dstate \<and>
      dm_CreatedBy dnext = dm_CreatedBy dstate \<and> dm_UpdatedAt dnext = dm_UpdatedAt dstate \<and>
      dm_UpdatedBy dnext = dm_UpdatedBy dstate \<and> dm_Source dnext = dm_Source dstate)"
proof (intro conjI impI)
  assume "alert_Update json cl plan state = Inr next"
  then obtain plan1 where
    "next = plan1\<lparr>am_ID := am_ID state,
                   am_CreateAt := am_CreateAt state,
                   am_CreateBy := am_CreateBy state,
                   am_UpdateAt := am_UpdateAt state,
                   am_UpdateBy := am_UpdateBy state,
                   am_Source := am_Source state,
                   am_State := am_State state\<rparr>"
    by (auto simp: alert_Update_def Let_def split: sum.splits option.splits)
  then show "am_ID next = am_ID state" "am_CreateAt next = am_CreateAt state"
    "am_CreateBy next = am_CreateBy state" "am_UpdateAt next = am_UpdateAt state"
    "am_UpdateBy next = am_UpdateBy state" "am_State next = am_State state"
    "am_Source next = am_Source state"
    by simp_all
next
  assume "dashboard_Update json cl dplan dstate = Inr dnext"
  then have "dnext = dplan\<lparr>dm_ID := dm_ID dstate,
                    dm_CreatedAt := dm_CreatedAt dstate,
                    dm_CreatedBy := dm_CreatedBy dstate,
                    dm_UpdatedAt := dm_UpdatedAt dstate,
                    dm_UpdatedBy := dm_UpdatedBy dstate,
                    dm_Source := dm_Source dstate\<rparr>"
    by (auto simp: dashboard_Update_def split: sum.splits option.splits)
  then show "dm_ID dnext = dm_ID dstate" "dm_CreatedAt dnext = dm_CreatedAt dstate"
    "dm_CreatedBy dnext = dm_CreatedBy dstate" "dm_UpdatedAt dnext = dm_UpdatedAt dstate"
    "dm_UpdatedBy dnext = dm_UpdatedBy dstate" "dm_Source dnext = dm_Source dstate"
    by simp_all
qed

theorem update_keeps_server_managed_fields_witness:
  \<open>alert_Update encoding_json remote_ok alert_plan0 alert_state0 =
     Inr (alert_state0\<lparr>am_Condition := StringValue ''{"a":2}''\<rparr>) \<and>
   am_ID alert_plan0 = StringUnknown \<and>
   am_CreateBy alert_plan0 = StringValue ''mallory'' \<and>
   am_ID (alert_state0\<lparr>am_Condition := StringValue ''{"a":2}''\<rparr>) = StringValue ''7'' \<and>
   am_CreateBy (alert_state0\<lparr>am_Condition := StringValue ''{"a":2}''\<rparr>) =
     StringValue ''alice'' \<and>
   dashboard_Update encoding_json remote_ok dashboard_plan0 dashboard_state0 =
     Inr (dashboard_state0\<lparr>dm_Widgets := StringValue ''[ ]''\<rparr>) \<and>
   dm_CreatedBy dashboard_plan0 = StringValue ''mallory'' \<and>
   dm_ID (dashboard_state0\<lparr>dm_Widgets := StringValue ''[ ]''\<rparr>) = StringValue ''9'' \<and>
   dm_CreatedBy (dashboard_state0\<lparr>dm_Widgets := StringValue ''[ ]''\<rparr>) =
     StringValue ''alice''\<close>
proof -
  let ?next = \<open>alert_state0\<lparr>am_Condition := StringValue ''{"a":2}''\<rparr>\<close>
  let ?dnext = \<open>dashboard_state0\<lparr>dm_Widgets := StringValue ''[ ]''\<rparr>\<close>
  note r = update_keeps_server_managed_fields [where json = encoding_json
      and cl = remote_ok and plan = alert_plan0 and state = alert_state0 and ?next = ?next
      and dplan = dashboard_plan0 and dstate = dashboard_state0 and dnext = ?dnext]
  from r alert_Update_plan0
  have a: "am_ID ?next = am_ID alert_state0" "am_CreateBy ?next = am_CreateBy alert_state0"
    by blast+
  from r dashboard_Update_plan0
  have d: "dm_ID ?dnext = dm_ID dashboard_state0"
    "dm_CreatedBy ?dnext = dm_CreatedBy dashboard_state0"
    by blast+
  have v: "am_ID alert_state0 = StringValue ''7''"
    "am_CreateBy alert_state0 = StringValue ''alice''"
    "dm_ID dashboard_state0 = StringValue ''9''"
    "dm_CreatedBy dashboard_state0 = StringValue ''alice''"
    "am_ID alert_plan0 = StringUnknown" "am_CreateBy alert_plan0 = StringValue ''mallory''"
    "dm_CreatedBy dashboard_plan0 = StringValue ''mallory''"
    by (simp_all add: alert_state0_def alert_plan0_def dashboard_state0_def
          dashboard_plan0_def)
  from a d v alert_Update_plan0 dashboard_Update_plan0 show ?thesis
    by (simp only: simp_thms)
qed

section \<open>The Read transition\<close>

text \<open>
  C2, as stated, fails for the condition of an alert: a Read sets it from the observed
  alert, not from the previous state. With the previous condition \<^verbatim>\<open>{"a":1}\<close> and a remote
  alert whose condition is \<^verbatim>\<open>{"a":2}\<close>, the next condition is \<^verbatim>\<open>{"a":2}\<close>.
\<close>

theorem alert_Read_condition_counterexample:
  \<open>am_Condition alert_state0 = StringValue ''{"a":1}'' \<and>
   GetAlert remote_ok (ValueString (am_ID alert_state0)) = Inr remote_alert0 \<and>
   a_Condition remote_alert0 = Some [(''a'', GFloat64 2)] \<and>
   map_sum id am_Condition (alert_Read encoding_json remote_ok alert_state0) =
     Inr (StringValue ''{"a":2}'')\<close>
  by (simp add: alert_Read_state0) (simp add: alert_state0_def remote_ok_def remote_alert0_def)

text \<open>
  C2, amended. A successful Read of a dashboard keeps the widgets, the layout, the panel map
  and the variables of the previous state and sets the scalar and computed fields (and the
  tags) from the observed dashboard. A successful Read of an alert sets the condition to the
  serialization of the observed condition with its default fields removed
  (\<open>ConditionToTerraform\<close>), and the scalar and computed fields from the observed alert.
\<close>

theorem read_drift_masking:
  "(dashboard_Read cl dstate = Inr dnext \<and>
    GetDashboard cl (ValueString (dm_ID dstate)) = Inr observed \<longrightarrow>
      dm_Widgets dnext = dm_Widgets dstate \<and> dm_Layout dnext = dm_Layout dstate \<and>
      dm_PanelMap dnext = dm_PanelMap dstate \<and> dm_Variables dnext = dm_Variables dstate \<and>
      dm_CollapsableRowsMigrated dnext =
        BoolValue (d_CollapsableRowsMigrated (e_Data observed)) \<and>
      dm_CreatedAt dnext = StringValue (e_CreatedAt observed) \<and>
      dm_CreatedBy dnext = StringValue (e_CreatedBy observed) \<and>
      dm_Description dnext = StringValue (d_Description (e_Data observed)) \<and>
      dm_ID dnext = StringValue (e_ID observed) \<and>
      dm_Name dnext = StringValue (d_Name (e_Data observed)) \<and>
      dm_Source dnext = StringValue (d_Source (e_Data observed)) \<and>
      dm_Title dnext = StringValue (d_Title (e_Data observed)) \<and>
      dm_UpdatedAt dnext = StringValue (e_UpdatedAt observed) \<and>
      dm_UpdatedBy dnext = StringValue (e_UpdatedBy observed) \<and>
      dm_UploadedGrafana dnext = BoolValue (d_UploadedGrafana (e_Data observed)) \<and>
      dm_Version dnext = StringValue (d_Version (e_Data observed)) \<and>
      dm_Tags dnext = TagsToTerraform (e_Data observed)) \<and>
   (alert_Read json cl state = Inr next \<and>
    GetAlert cl (ValueString (am_ID state)) = Inr alert \<longrightarrow>
      ConditionToTerraform json alert = Inr (am_Condition next) \<and>
      am_Alert next = StringValue (a_Alert alert) \<and>
      am_AlertType next = StringValue (a_AlertType alert) \<and>
      am_BroadcastToAll next = BoolValue (a_BroadcastToAll alert) \<and>
      am_Description next = StringValue (a_Description alert) \<and>
      am_Disabled next = BoolValue (a_Disabled alert) \<and>
      am_EvalWindow next = StringValue (a_EvalWindow alert) \<and>
      am_Frequency next = StringValue (a_Frequency alert) \<and>
      am_RuleType next = StringValue (a_RuleType alert) \<and>
      am_Source next = StringValue (a_Source alert) \<and>
      am_State next = StringValue (a_State alert) \<and>
      am_Summary next = StringValue (a_Summary alert) \<and>
      am_Version next = StringValue (a_Version alert) \<and>
      am_CreateAt next = StringValue (a_CreateAt alert) \<and>
      am_CreateBy next = StringValue (a_CreateBy alert) \<and>
      am_UpdateAt next = StringValue (a_UpdateAt alert) \<and>
      am_UpdateBy next = StringValue (a_UpdateBy alert))"
proof (intro conjI impI)
  assume "dashboard_Read cl dstate = Inr dnext \<and>
    GetDashboard cl (ValueString (dm_ID dstate)) = Inr observed"
  then have d: "dnext = dstate
       \<lparr>dm_CollapsableRowsMigrated := BoolValue (d_CollapsableRowsMigrated (e_Data observed)),
        dm_CreatedAt := StringValue (e_CreatedAt observed),
        dm_CreatedBy := StringValue (e_CreatedBy observed),
        dm_Description := StringValue (d_Description (e_Data observed)),
        dm_ID := StringValue (e_ID observed),
        dm_Name := StringValue (d_Name (e_Data observed)),
        dm_Source := StringValue (d_Source (e_Data observed)),
        dm_Title := StringValue (d_Title (e_Data observed)),
        dm_UpdatedAt := StringValue (e_UpdatedAt observed),
        dm_UpdatedBy := StringValue (e_UpdatedBy observed),
        dm_UploadedGrafana := BoolValue (d_UploadedGrafana (e_Data observed)),
        dm_Version := StringValue (d_Version (e_Data observed)),
        dm_Tags := TagsToTerraform (e_Data observed)\<rparr>"
    by (auto simp: dashboard_Read_def Let_def)
  show "dm_Widgets dnext = dm_Widgets dstate" "dm_Layout dnext = dm_Layout dstate"
    "dm_PanelMap dnext = dm_PanelMap dstate" "dm_Variables dnext = dm_Variables dstate"
    "dm_CollapsableRowsMigrated dnext =
        BoolValue (d_CollapsableRowsMigrated (e_Data observed))"
    "dm_CreatedAt dnext = StringValue (e_CreatedAt observed)"
    "dm_CreatedBy dnext = StringValue (e_CreatedBy observed)"
    "dm_Description dnext = StringValue (d_Description (e_Data observed))"
    "dm_ID dnext = StringValue (e_ID observed)"
    "dm_Name dnext = StringValue (d_Name (e_Data observed))"
    "dm_Source dnext = StringValue (d_Source (e_Data observed))"
    "dm_Title dnext = StringValue (d_Title (e_Data observed))"
    "dm_UpdatedAt dnext = StringValue (e_UpdatedAt observed)"
    "dm_UpdatedBy dnext = StringValue (e_UpdatedBy observed)"
    "dm_UploadedGrafana dnext = BoolValue (d_UploadedGrafana (e_Data observed))"
    "dm_Version dnext = StringValue (d_Version (e_Data observed))"
    "dm_Tags dnext = TagsToTerraform (e_Data observed)"
    by (simp_all add: d)
next
  assume "alert_Read json cl state = Inr next \<and>
    GetAlert cl (ValueString (am_ID state)) = Inr alert"
  then obtain condition where c: "ConditionToTerraform json alert = Inr condition"
    and n: "next = state
       \<lparr>am_Alert := StringValue (a_Alert alert),
        am_AlertType := StringValue (a_AlertType alert),
        am_BroadcastToAll := BoolValue (a_BroadcastToAll alert),
        am_Description := StringValue (a_Description alert),
        am_Disabled := BoolValue (a_Disabled alert),
        am_EvalWindow := StringValue (a_EvalWindow alert),
        am_Frequency := StringValue (a_Frequency alert),
        am_RuleType := StringValue (a_RuleType alert),
        am_Severity := StringValue (case a_Labels alert attr_Severity of
                                      None \<Rightarrow> [] | Some v \<Rightarrow> v),
        am_Source := StringValue (a_Source alert),
        am_State := StringValue (a_State alert),
        am_Summary := StringValue (a_Summary alert),
        am_Version := StringValue (a_Version alert),
        am_CreateAt := StringValue (a_CreateAt alert),
        am_CreateBy := StringValue (a_CreateBy alert),
        am_UpdateAt := StringValue (a_UpdateAt alert),
        am_UpdateBy := StringValue (a_UpdateBy alert),
        am_Condition := condition,
        am_Labels := LabelsToTerraform alert,
        am_PreferredChannels := PreferredChannelsToTerraform alert\<rparr>"
    by (auto simp: alert_Read_def Let_def split: sum.splits)
  show "ConditionToTerraform json alert = Inr (am_Condition next)"
    by (simp add: c n)
  show "am_Alert next = StringValue (a_Alert alert)"
    "am_AlertType next = StringValue (a_AlertType alert)"
    "am_BroadcastToAll next = BoolValue (a_BroadcastToAll alert)"
    "am_Description next = StringValue (a_Description alert)"
    "am_Disabled next = BoolValue (a_Disabled alert)"
    "am_EvalWindow next = StringValue (a_EvalWindow alert)"
    "am_Frequency next = StringValue (a_Frequency alert)"
    "am_RuleType next = StringValue (a_RuleType alert)"
    "am_Source next = StringValue (a_Source alert)"
    "am_State next = StringValue (a_State alert)"
    "am_Summary next = StringValue (a_Summary alert)"
    "am_Version next = StringValue (a_Version alert)"
    "am_CreateAt next = StringValue (a_CreateAt alert)"
    "am_CreateBy next = StringValue (a_CreateBy alert)"
    "am_UpdateAt next = StringValue (a_UpdateAt alert)"
    "am_UpdateBy next = StringValue (a_UpdateBy alert)"
    by (simp_all add: n)
qed

theorem read_drift_masking_witness:
  \<open>dashboard_Read remote_ok dashboard_state0 =
     Inr (dashboard_state0
            \<lparr>dm_Description := StringValue ''main, renamed'',
             dm_UpdatedAt := StringValue ''t2'',
             dm_UpdatedBy := StringValue ''carol'',
             dm_Version := StringValue ''v5'',
             dm_Tags := ListValue [StringValue ''prod'']\<rparr>) \<and>
   GetDashboard remote_ok (ValueString (dm_ID dashboard_state0)) = Inr remote_dashboard0 \<and>
   d_Widgets (e_Data remote_dashboard0) = GSlice [GMap [(''id'', GString ''w1'')]] \<and>
   dm_Widgets
     (dashboard_state0
        \<lparr>dm_Description := StringValue ''main, renamed'',
         dm_UpdatedAt := StringValue ''t2'',
         dm_UpdatedBy := StringValue ''carol'',
         dm_Version := StringValue ''v5'',
         dm_Tags := ListValue [StringValue ''prod'']\<rparr>) = StringValue ''[]'' \<and>
   GetAlert remote_ok (ValueString (am_ID alert_state0)) = Inr remote_alert0 \<and>
   ConditionToTerraform encoding_json remote_alert0 = Inr (StringValue ''{"a":2}'')\<close>
proof -
  let ?dnext = "dashboard_state0
            \<lparr>dm_Description := StringValue ''main, renamed'',
             dm_UpdatedAt := StringValue ''t2'',
             dm_UpdatedBy := StringValue ''carol'',
             dm_Version := StringValue ''v5'',
             dm_Tags := ListValue [StringValue ''prod'']\<rparr>"
  let ?next = \<open>alert_state0
            \<lparr>am_State := StringValue ''firing'',
             am_UpdateAt := StringValue ''t2'',
             am_UpdateBy := StringValue ''carol'',
             am_Condition := StringValue ''{"a":2}'',
             am_Labels := LabelsToTerraform remote_alert0,
             am_PreferredChannels := ListValue []\<rparr>\<close>
  have gd: "GetDashboard remote_ok (ValueString (dm_ID dashboard_state0)) =
              Inr remote_dashboard0"
    by (simp add: remote_ok_def)
  have ga: "GetAlert remote_ok (ValueString (am_ID alert_state0)) = Inr remote_alert0"
    by (simp add: remote_ok_def)
  note r = read_drift_masking [where cl = remote_ok and dstate = dashboard_state0
      and dnext = ?dnext and observed = remote_dashboard0 and json = encoding_json
      and state = alert_state0 and ?next = ?next and alert = remote_alert0]
  from r dashboard_Read_state0 gd have w: "dm_Widgets ?dnext = dm_Widgets dashboard_state0"
    by blast
  from r alert_Read_state0 ga
  have "ConditionToTerraform encoding_json remote_alert0 = Inr (am_Condition ?next)"
    by blast
  then have c: \<open>ConditionToTerraform encoding_json remote_alert0 =
                 Inr (StringValue ''{"a":2}'')\<close>
    by simp
  have v: "dm_Widgets dashboard_state0 = StringValue ''[]''"
    "d_Widgets (e_Data remote_dashboard0) = GSlice [GMap [(''id'', GString ''w1'')]]"
    by (simp_all add: dashboard_state0_def remote_dashboard0_def)
  from w c v gd ga dashboard_Read_state0 show ?thesis
    by (simp only: simp_thms)
qed

section \<open>Where the code departs from its own purpose\<close>

text \<open>
  C3. The scenario fails on the code. A number decoded from JSON is a \<^verbatim>\<open>float64\<close>, and
  \<^verbatim>\<open>value == 0\<close> in \<^verbatim>\<open>isDefaultField\<close> compares it with the \<^verbatim>\<open>int\<close> constant \<^verbatim>\<open>0\<close>: the
  rule for \<^verbatim>\<open>absentFor\<close> never matches a decoded value. The pair \<^verbatim>\<open>"absentFor":0\<close> is kept,
  the comparator finds the two conditions different, and Update keeps the desired one.
\<close>

theorem absentFor_zero_is_not_suppressed:
  \<open>isDefaultField ''absentFor'' (GFloat64 0) = False \<and>
   isDefaultField ''absentFor'' (GInt 0) = True \<and>
   isDefaultField ''alertOnAbsent'' (GBool False) = True \<and>
   normalizeJSON encoding_json ''{"absentFor":0,"alertOnAbsent":false,"a":1}'' =
     Inr ''{"a":1,"absentFor":0}'' \<and>
   normalizeJSON encoding_json ''{"a":1}'' = Inr ''{"a":1}'' \<and>
   areJSONsSemanticallyEqual encoding_json
     ''{"absentFor":0,"alertOnAbsent":false,"a":1}'' ''{"a":1}'' = False \<and>
   am_Condition alert_state0 = StringValue ''{"a":1}'' \<and>
   map_sum id am_Condition (alert_Update encoding_json remote_ok alert_plan1 alert_state0) =
     Inr (StringValue ''{"absentFor":0,"alertOnAbsent":false,"a":1}'')\<close>
  by (simp add: compare_absent_a1 alert_Update_plan1 normalizeJSON_def unmarshal_absent
        unmarshal_a1 marshal_a1 marshal_a1_absent)
     (simp add: isDefaultField_def alert_state0_def)

text \<open>
  C7. The policy has no context: \<^verbatim>\<open>isDefaultField\<close> takes the key and the value only, and
  \<^verbatim>\<open>removeDefaultFields\<close> drops \<^verbatim>\<open>"hidden":true\<close> and the empty \<^verbatim>\<open>reduceTo\<close>,
  \<^verbatim>\<open>spaceAggregation\<close> and \<^verbatim>\<open>timeAggregation\<close> in a query named \<^verbatim>\<open>B\<close> as in any other place,
  while \<^verbatim>\<open>normalizeCondition\<close> adds them for the queries \<^verbatim>\<open>A\<close> and \<^verbatim>\<open>F1\<close> only.
\<close>

theorem positional_defaults_are_dropped_everywhere:
  \<open>removeDefaultFields
     (GMap [(''B'', GMap [(''hidden'', GBool True), (''reduceTo'', GString []),
                          (''spaceAggregation'', GString []),
                          (''timeAggregation'', GString [])])]) =
     GMap [(''B'', GMap [])] \<and>
   removeDefaultFields (GMap [(''x'', GSlice [GMap [(''hidden'', GBool True)]])]) =
     GMap [(''x'', GSlice [GMap []])] \<and>
   normalizeQuery ''B'' [] =
     [(''IsAnomaly'', GBool False), (''QueriesUsedInFormula'', GNil), (''groupBy'', GSlice [])] \<and>
   normalizeQuery ''A'' [] =
     [(''IsAnomaly'', GBool False), (''QueriesUsedInFormula'', GNil), (''groupBy'', GSlice []),
      (''hidden'', GBool True)] \<and>
   areJSONsSemanticallyEqual encoding_json
     ''{"compositeQuery":{"builderQueries":{"B":{"hidden":true,"reduceTo":""}}}}''
     ''{"compositeQuery":{"builderQueries":{"B":{}}}}''\<close>
  by (simp add: isDefaultField_def normalizeQuery_def set_if_nil_def map_get_def
        areJSONsSemanticallyEqual_def json_eval)

text \<open>
  C10. The round trip of the labels fails for a value that \<^verbatim>\<open>strconv.Quote\<close> escapes.
  \<^verbatim>\<open>SetLabels\<close> takes the quoted form of each value (\<^verbatim>\<open>value.String()\<close>) and trims the quotes
  at both ends, which leaves the escapes in: the label \<^verbatim>\<open>a"b\<close> comes back as \<^verbatim>\<open>a\"b\<close>. The
  labels \<^verbatim>\<open>managedBy\<close> and \<^verbatim>\<open>severity\<close> are added and stripped as the claim says.
\<close>

theorem labels_round_trip_breaks_on_quote:
  \<open>a_Labels (SetLabels a (MapValue [''team'' \<mapsto> StringValue ''a"b'']) (StringValue ''critical''))
     ''managedBy'' = Some ''terraform'' \<and>
   a_Labels (SetLabels a (MapValue [''team'' \<mapsto> StringValue ''a"b'']) (StringValue ''critical''))
     ''severity'' = Some ''critical'' \<and>
   LabelsToTerraform
     (SetLabels a (MapValue [''team'' \<mapsto> StringValue ''a"b'']) (StringValue ''critical'')) =
     MapValue [''team'' \<mapsto> StringValue [CHR ''a'', CHR 0x5C, CHR 0x22, CHR ''b'']] \<and>
   MapValue [''team'' \<mapsto> StringValue [CHR ''a'', CHR 0x5C, CHR 0x22, CHR ''b'']] \<noteq>
     MapValue [''team'' \<mapsto> StringValue ''a"b'']\<close>
proof -
  have split: "strings_Split AlertTerraformLabel (CHR '':'') = [''managedBy'', ''terraform'']"
    by (simp add: AlertTerraformLabel_def)
  have trim: \<open>strings_Trim (strconv_Quote ''a"b'') [CHR 0x22] =
                [CHR ''a'', CHR 0x5C, CHR 0x22, CHR ''b'']\<close>
    by (simp add: strings_Trim_def strconv_Quote_def quote_char_def)
  have neq: \<open>MapValue [''team'' \<mapsto> StringValue [CHR ''a'', CHR 0x5C, CHR 0x22, CHR ''b'']] \<noteq>
     MapValue [''team'' \<mapsto> StringValue ''a"b'']\<close>
    by (simp add: fun_eq_iff)
  have sp: "strings_TrimSpace ''managedBy'' = ''managedBy''"
    "strings_TrimSpace ''terraform'' = ''terraform''"
    by (simp_all add: strings_TrimSpace_def strings_Trim_def)
  show ?thesis
    using neq
    by (auto simp: SetLabels_def LabelsToTerraform_def Let_def split trim sp fun_eq_iff
          attr_Severity_def)
qed

text \<open>
  For the values that \<^verbatim>\<open>strconv.Quote\<close> leaves as they are, the round trip holds: a map of
  such known values, without the keys \<^verbatim>\<open>severity\<close> and \<^verbatim>\<open>managedBy\<close>, comes back unchanged.
\<close>

lemma concat_quote_plain: "list_all (\<lambda>c. quote_char c = [c]) s \<Longrightarrow> concat (map quote_char s) = s"
  by (induction s) simp_all

lemma plain_no_quote: "quote_char c = [c] \<Longrightarrow> c \<noteq> CHR 0x22"
  by (auto simp: quote_char_def)

lemma dropWhile_quote_plain:
  "list_all (\<lambda>c. quote_char c = [c]) s \<Longrightarrow>
     dropWhile (\<lambda>c. c \<in> set [CHR 0x22]) (s @ [CHR 0x22]) = (if s = [] then [] else s @ [CHR 0x22])"
  by (cases s) (auto dest: plain_no_quote)

lemma dropWhile_rev_quote_plain:
  "list_all (\<lambda>c. quote_char c = [c]) s \<Longrightarrow>
     dropWhile (\<lambda>c. c \<in> set [CHR 0x22]) (CHR 0x22 # rev s) = rev s"
  by (cases s rule: rev_cases) (auto dest: plain_no_quote)

lemma trim_quote_plain:
  assumes "list_all (\<lambda>c. quote_char c = [c]) s"
  shows "strings_Trim (strconv_Quote s) [CHR 0x22] = s"
proof -
  have q: "strconv_Quote s = CHR 0x22 # s @ [CHR 0x22]"
    by (simp add: strconv_Quote_def concat_quote_plain [OF assms])
  show ?thesis
  proof (cases "s = []")
    case True
    then show ?thesis
      by (simp add: strings_Trim_def strconv_Quote_def)
  next
    case False
    have "strings_Trim (strconv_Quote s) [CHR 0x22] =
            rev (dropWhile (\<lambda>c. c \<in> set [CHR 0x22])
                   (rev (dropWhile (\<lambda>c. c \<in> set [CHR 0x22]) (s @ [CHR 0x22]))))"
      by (simp add: strings_Trim_def q)
    also have "\<dots> = rev (dropWhile (\<lambda>c. c \<in> set [CHR 0x22]) (CHR 0x22 # rev s))"
      using False by (simp only: dropWhile_quote_plain [OF assms] if_False rev_append rev.simps append_Nil append_Cons)
    also have "\<dots> = s"
      by (simp only: dropWhile_rev_quote_plain [OF assms] rev_rev_ident)
    finally show ?thesis .
  qed
qed

lemma labels_round_trip_plain:
  assumes "\<And>k v. m k = Some v \<Longrightarrow> \<exists>s. v = StringValue s \<and> list_all (\<lambda>c. quote_char c = [c]) s"
    and "m attr_Severity = None" and "m ''managedBy'' = None"
  shows "LabelsToTerraform (SetLabels a (MapValue m) tfSeverity) = MapValue m"
proof -
  have split: "strings_Split AlertTerraformLabel (CHR '':'') = [''managedBy'', ''terraform'']"
    by (simp add: AlertTerraformLabel_def)
  have sp: "strings_TrimSpace ''managedBy'' = ''managedBy''"
    by (simp add: strings_TrimSpace_def strings_Trim_def)
  have "(case a_Labels (SetLabels a (MapValue m) tfSeverity) k of
           None \<Rightarrow> None | Some v \<Rightarrow> Some (StringValue v)) = m k"
    if "k \<noteq> attr_Severity" "k \<noteq> ''managedBy''" for k
  proof (cases "m k")
    case None
    with that show ?thesis
      by (simp add: SetLabels_def Let_def split sp)
  next
    case (Some v)
    with assms(1) obtain s where "v = StringValue s" "list_all (\<lambda>c. quote_char c = [c]) s"
      by blast
    with Some that show ?thesis
      by (simp add: SetLabels_def Let_def split sp trim_quote_plain)
  qed
  with assms(2,3) show ?thesis
    by (auto simp: LabelsToTerraform_def Let_def split fun_eq_iff)
qed

text \<open>
  C6. The digest that \<^verbatim>\<open>SetWidgets\<close> stores is the digest of the submitted text as it is,
  not of its canonical serialization: the texts \<^verbatim>\<open>[ ]\<close> and \<^verbatim>\<open>[]\<close>, which decode to the same
  value, are stored as two different digests, and the digest that \<^verbatim>\<open>WidgetsToTerraform\<close>
  computes for that value when it is read back is the digest of \<^verbatim>\<open>[]\<close>, which is not the one
  stored for \<^verbatim>\<open>[ ]\<close>.
\<close>

theorem widgets_digest_is_of_the_raw_text:
  \<open>SetWidgets d (StringValue ''[ ]'') =
     Inr (d\<lparr>d_Widgets :=
       GString ''5984eac0c5c6d947241e29dd5671b81a1546cedf77e08d38438ac47029969afa''\<rparr>) \<and>
   SetWidgets d (StringValue ''[]'') =
     Inr (d\<lparr>d_Widgets :=
       GString ''4f53cda18c2baa0c0354bb5f9a3ecbe5ed12ab4d8e11ba873c2f11161202b945''\<rparr>) \<and>
   Unmarshal encoding_json ''[ ]'' = Inr (GSlice []) \<and>
   Unmarshal encoding_json ''[]'' = Inr (GSlice []) \<and>
   Marshal encoding_json (GSlice []) = Inr ''[]'' \<and>
   WidgetsToTerraform encoding_json (d\<lparr>d_Widgets := GSlice []\<rparr>) =
     Inr (StringValue ''4f53cda18c2baa0c0354bb5f9a3ecbe5ed12ab4d8e11ba873c2f11161202b945'') \<and>
   sha256_hex ''[ ]'' \<noteq> sha256_hex ''[]''\<close>
  by (simp add: SetWidgets_def WidgetsToTerraform_def Let_def unmarshal_empty_arrays
        marshal_empty_array sha256_hex_empty_array sha256_hex_spaced_array)

end
